theory Spec2Isabelle
  imports Complex_Main
begin

section \<open>Player control of jfsh: data model\<close>

text \<open>
  The development follows \<^verbatim>\<open>internal/mpv/mpv.go\<close> and \<^verbatim>\<open>internal/mpv/play.go\<close>.

  Go's \<^verbatim>\<open>float64\<close> is not interpreted. The type variable \<open>'f\<close> stands for the
  float64 values compared by \<^verbatim>\<open>==\<close>, and the operations the code applies to
  them are the fields of a record that every function using them takes as its first
  argument. Each theorem holds for every choice of these operations, IEEE-754
  binary64 among them.
\<close>

record 'f float64 =
  of_integer :: "int \<Rightarrow> 'f"              \<comment> \<open>\<^verbatim>\<open>float64(n)\<close> of an \<^verbatim>\<open>int64\<close>, and the integer constants\<close>
  to_int64 :: "'f \<Rightarrow> int"                \<comment> \<open>the conversion \<^verbatim>\<open>int64(x)\<close>\<close>
  fmul :: "'f \<Rightarrow> 'f \<Rightarrow> 'f"
  fdiv :: "'f \<Rightarrow> 'f \<Rightarrow> 'f"
  fless :: "'f \<Rightarrow> 'f \<Rightarrow> bool"             \<comment> \<open>\<^verbatim>\<open>x < y\<close>\<close>
  fgeq :: "'f \<Rightarrow> 'f \<Rightarrow> bool"              \<comment> \<open>\<^verbatim>\<open>x >= y\<close>\<close>
  is_finite :: "'f \<Rightarrow> bool"               \<comment> \<open>neither NaN nor infinite\<close>
  format_f6 :: "'f \<Rightarrow> string"            \<comment> \<open>\<^verbatim>\<open>strconv.FormatFloat(x, 'f', 6, 64)\<close>\<close>

definition secondsToTicks :: "'f float64 \<Rightarrow> 'f \<Rightarrow> int" where
  "secondsToTicks fl seconds = to_int64 fl (fmul fl seconds (of_integer fl 10000000))"

definition ticksToSeconds :: "'f float64 \<Rightarrow> int \<Rightarrow> 'f" where
  "ticksToSeconds fl ticks = fdiv fl (of_integer fl ticks) (of_integer fl 10000000)"

text \<open>
  An item of the media server. The functions of package \<^verbatim>\<open>jellyfin\<close> that
  \<^verbatim>\<open>Play\<close> applies to an item (\<^verbatim>\<open>GetStreamingURL\<close> with the client's host,
  \<^verbatim>\<open>GetMediaTitle\<close>, \<^verbatim>\<open>GetResumePosition\<close>, \<^verbatim>\<open>GetExternalSubtitleStreams\<close>) are
  not part of the player control; an item carries their results.
\<close>

record subtitle =
  sub_url :: string                      \<comment> \<open>\<^verbatim>\<open>client.Host + subtitle.Path\<close>\<close>
  sub_title :: string
  sub_language :: string

record item =
  streamingURL :: string
  mediaTitle :: string
  resumePosition :: int                  \<comment> \<open>in ticks\<close>
  externalSubtitles :: "subtitle list"

subsection \<open>Commands\<close>

text \<open>
  A command is Go's \<^verbatim>\<open>[]any\<close>: strings, integers, floats, and the option map
  of \<^verbatim>\<open>loadfile\<close>, whose values are strings. The map is listed by ascending key,
  the order in which \<^verbatim>\<open>encoding/json\<close> writes a map.
\<close>

datatype 'f arg =
    AStr string
  | AInt int
  | AFloat 'f
  | AMap "(string \<times> string) list"

type_synonym 'f command = "'f arg list"

definition observeProperty :: "string \<Rightarrow> 'f command" where
  "observeProperty name = [AStr ''observe_property'', AInt 1, AStr name]"

definition seekTo :: "'f \<Rightarrow> 'f command" where
  "seekTo p = [AStr ''seek'', AFloat p, AStr ''absolute'']"

text \<open>\<^verbatim>\<open>prependFile\<close> sends nothing on an old player: \<open>None\<close>.\<close>

definition prependFile :: "bool \<Rightarrow> string \<Rightarrow> string \<Rightarrow> 'f command option" where
  "prependFile oldMpv url title =
     (if oldMpv then None
      else Some [AStr ''loadfile'', AStr url, AStr ''insert-at'', AInt 0,
                 AMap [(''force-media-title'', title)]])"

definition appendFile :: "bool \<Rightarrow> string \<Rightarrow> string \<Rightarrow> 'f command" where
  "appendFile oldMpv url title =
     [AStr ''loadfile'', AStr url, AStr ''append'']
     @ (if \<not> oldMpv then [AInt 0] else [])
     @ [AMap [(''force-media-title'', title)]]"

definition playFile :: "'f float64 \<Rightarrow> bool \<Rightarrow> string \<Rightarrow> string \<Rightarrow> 'f \<Rightarrow> 'f command" where
  "playFile fl oldMpv url title start =
     [AStr ''loadfile'', AStr url, AStr ''replace'']
     @ (if \<not> oldMpv then [AInt 0] else [])
     @ [AMap [(''force-media-title'', title), (''start'', format_f6 fl start)]]"

definition addSubtitle :: "string \<Rightarrow> string \<Rightarrow> string \<Rightarrow> 'f command" where
  "addSubtitle url title lang = [AStr ''sub-add'', AStr url, AStr ''auto'', AStr title, AStr lang]"

section \<open>Building the playlist\<close>

text \<open>
  Indexing a Go slice with an index out of range panics: \<open>None\<close>.
\<close>

definition element :: "'a list \<Rightarrow> int \<Rightarrow> 'a option" where
  "element xs i = (if 0 \<le> i \<and> i < int (length xs) then Some (xs ! nat i) else None)"

text \<open>
  The state of the construction: the slot map \<^verbatim>\<open>playlistIDs\<close> and the commands handed
  to \<^verbatim>\<open>send\<close> so far, oldest first. A command is recorded when \<^verbatim>\<open>send\<close> is
  called with it, whether or not the write to the socket succeeds.
\<close>

record 'f playlist =
  playlistIDs :: "int list"
  sent :: "'f command list"

text \<open>The loop \<^verbatim>\<open>for i := index + 1; i < len(items); i++\<close>.\<close>

function append_loop :: "bool \<Rightarrow> item list \<Rightarrow> int \<Rightarrow> 'f playlist \<Rightarrow> 'f playlist option" where
  "append_loop oldMpv items i pl =
     (if i < int (length items) then
        (case element items i of
           None \<Rightarrow> None
         | Some it \<Rightarrow>
             append_loop oldMpv items (i + 1)
               (pl\<lparr>sent := sent pl @ [appendFile oldMpv (streamingURL it) (mediaTitle it)],
                   playlistIDs := playlistIDs pl @ [i]\<rparr>))
      else Some pl)"
  by pat_completeness auto
termination
  by (relation "measure (\<lambda>(oldMpv, items, i, pl). nat (int (length items) - i))") auto

declare append_loop.simps [simp del]

text \<open>The loop \<^verbatim>\<open>for i := index - 1; i >= 0; i--\<close>.\<close>

function prepend_loop :: "bool \<Rightarrow> item list \<Rightarrow> int \<Rightarrow> 'f playlist \<Rightarrow> 'f playlist option" where
  "prepend_loop oldMpv items i pl =
     (if i \<ge> 0 then
        (case element items i of
           None \<Rightarrow> None
         | Some it \<Rightarrow>
             prepend_loop oldMpv items (i - 1)
               (pl\<lparr>sent := sent pl @
                      (case prependFile oldMpv (streamingURL it) (mediaTitle it) of
                         None \<Rightarrow> [] | Some c \<Rightarrow> [c]),
                   playlistIDs := playlistIDs pl @ [i]\<rparr>))
      else Some pl)"
  by pat_completeness auto
termination
  by (relation "measure (\<lambda>(oldMpv, items, i, pl). nat (i + 1))") auto

declare prepend_loop.simps [simp del]

text \<open>
  How the construction ends: with the playlist built, with the error
  \<^verbatim>\<open>failed to play file\<close> returned by \<^verbatim>\<open>Play\<close> (after the commands sent so
  far), or with a panic.
\<close>

datatype 'f built =
    Built "'f playlist"
  | FailedToPlayFile "'f command list"
  | BuildPanic

text \<open>
  Lines 44 to 74 of \<^verbatim>\<open>play.go\<close>. \<open>play_ok\<close> tells whether the
  \<^verbatim>\<open>send\<close> of the first command succeeded. The results of the other sends are only
  logged.
\<close>

definition build_playlist ::
  "'f float64 \<Rightarrow> bool \<Rightarrow> bool \<Rightarrow> item list \<Rightarrow> int \<Rightarrow> 'f built" where
  "build_playlist fl oldMpv play_ok items index =
     (case element items index of
        None \<Rightarrow> BuildPanic
      | Some it \<Rightarrow>
          (let c = playFile fl oldMpv (streamingURL it) (mediaTitle it)
                     (ticksToSeconds fl (resumePosition it))
           in if \<not> play_ok then FailedToPlayFile [c]
              else
                (case append_loop oldMpv items (index + 1)
                        \<lparr>playlistIDs = [index], sent = [c]\<rparr> of
                   None \<Rightarrow> BuildPanic
                 | Some pl \<Rightarrow>
                     (case prepend_loop oldMpv items (index - 1) pl of
                        None \<Rightarrow> BuildPanic
                      | Some pl' \<Rightarrow> Built pl'))))"

section \<open>The event loop\<close>

subsection \<open>Inbound messages\<close>

text \<open>
  The field \<^verbatim>\<open>Data\<close> of a message has type \<^verbatim>\<open>any\<close>: after decoding it is
  \<^verbatim>\<open>nil\<close>, a \<^verbatim>\<open>float64\<close> (every JSON number), or a value of another type.
\<close>

datatype 'f data = DataNil | DataNumber 'f | DataOther

record 'f message =
  msg_error :: string
  msg_request_id :: int
  msg_event :: string
  msg_name :: string
  msg_reason :: string
  msg_data :: "'f data"
  msg_playlist_id :: int                 \<comment> \<open>\<^verbatim>\<open>playlist_entry_id\<close>, 0 when absent\<close>

text \<open>
  What the scanner hands to one iteration of the loop: an empty line, a line that
  \<^verbatim>\<open>json.Unmarshal\<close> rejects, or a decoded message.
\<close>

datatype 'f line = EmptyLine | Malformed | Message "'f message"

subsection \<open>Time\<close>

text \<open>
  A \<^verbatim>\<open>time.Time\<close> of the loop is either the zero time \<^verbatim>\<open>time.Time{}\<close> or a
  reading of \<^verbatim>\<open>time.Now()\<close>, given by its monotonic clock in nanoseconds.
  \<^verbatim>\<open>time.Since\<close> subtracts two monotonic readings and saturates at the bounds of
  \<^verbatim>\<open>Duration\<close>; since the zero time, which lies more than 292 years back, it is the
  largest duration.
\<close>

datatype gotime = ZeroTime | Clock int

definition maxDuration :: int where
  "maxDuration = 2 ^ 63 - 1"

definition minDuration :: int where
  "minDuration = - (2 ^ 63)"

definition since :: "int \<Rightarrow> gotime \<Rightarrow> int" where
  "since now t =
     (case t of
        ZeroTime \<Rightarrow> maxDuration
      | Clock u \<Rightarrow> max minDuration (min maxDuration (now - u)))"

definition second :: int where
  "second = 1000000000"

subsection \<open>Session state and effects\<close>

text \<open>
  The calls the loop makes to the player and to the client of the media server, in the
  order made. The client belongs to package \<^verbatim>\<open>internal/jellyfin\<close>; a report is the
  call with the item and the position it is given.
\<close>

datatype 'f effect =
    Send "'f command"
  | ReportPlaybackStart item int
  | ReportPlaybackProgress item int
  | ReportPlaybackStopped item int
  | GetMediaSegments item

record 'f session =
  pos :: 'f
  lastProgressUpdate :: gotime
  current :: item                        \<comment> \<open>the variable \<^verbatim>\<open>item\<close>\<close>
  skippableSegments :: "('f \<times> 'f) list"
  effects :: "'f effect list"

text \<open>
  What an iteration takes from outside the program: the clock when \<^verbatim>\<open>time.Since\<close>
  is evaluated, the clock when \<^verbatim>\<open>time.Now()\<close> is read after a progress report,
  whether the progress report returns no error, and the entries of the map returned by
  \<^verbatim>\<open>GetMediaSegments\<close> (in ticks) in the order in which \<^verbatim>\<open>range\<close> visits them.
  The results of the other calls are only logged.
\<close>

record env =
  clock :: int
  clock_after :: int
  progress_ok :: bool
  media_segments :: "(int \<times> int) list"

text \<open>
  The Go map \<^verbatim>\<open>skippableSegments\<close> is kept as a list of entries with distinct keys;
  \<^verbatim>\<open>m[k] = v\<close> replaces the value of a key that is present and adds the entry otherwise.
\<close>

fun assign :: "'k \<Rightarrow> 'v \<Rightarrow> ('k \<times> 'v) list \<Rightarrow> ('k \<times> 'v) list" where
  "assign k v [] = [(k, v)]"
| "assign k v ((k', v') # m) = (if k' = k then (k, v) # m else (k', v') # assign k v m)"

text \<open>
  \<^verbatim>\<open>isInsideSkippableSegment\<close>. Go does not fix the order in which \<^verbatim>\<open>range\<close>
  visits a map; the entries are visited in the order of the list.
\<close>

fun isInsideSkippableSegment :: "'f float64 \<Rightarrow> ('f \<times> 'f) list \<Rightarrow> 'f \<Rightarrow> 'f" where
  "isInsideSkippableSegment fl [] p = of_integer fl 0"
| "isInsideSkippableSegment fl ((start, end) # segments) p =
     (if fgeq fl p start \<and> fless fl p end then end
      else isInsideSkippableSegment fl segments p)"

definition emit :: "'f effect \<Rightarrow> 'f session \<Rightarrow> 'f session" where
  "emit e s = s\<lparr>effects := effects s @ [e]\<rparr>"

text \<open>Go's \<^verbatim>\<open>int\<close> has 64 bits on a 64-bit platform; arithmetic wraps around.\<close>

definition wrap64 :: "int \<Rightarrow> int" where
  "wrap64 x = (x + 2 ^ 63) mod 2 ^ 64 - 2 ^ 63"

text \<open>
  How an iteration ends: the loop goes on, \<^verbatim>\<open>Play\<close> returns the error
  \<^verbatim>\<open>start-file event for unknown playlist id\<close>, or the program panics.
\<close>

datatype 'f outcome =
    Running "'f session"
  | UnknownPlaylistID int "'f session"
  | Panicked "'f session"

text \<open>The case \<^verbatim>\<open>property-change\<close> of \<^verbatim>\<open>time-pos\<close>.\<close>

definition on_time_pos :: "'f float64 \<Rightarrow> env \<Rightarrow> 'f session \<Rightarrow> 'f data \<Rightarrow> 'f session" where
  "on_time_pos fl ev s d =
     (case d of
        DataNil \<Rightarrow> s
      | DataOther \<Rightarrow> s
      | DataNumber x \<Rightarrow>
          (let s1 = s\<lparr>pos := x\<rparr>;
               end = isInsideSkippableSegment fl (skippableSegments s1) (pos s1);
               s2 = (if end \<noteq> of_integer fl 0 then emit (Send (seekTo end)) s1 else s1)
           in if since (clock ev) (lastProgressUpdate s2) > 3 * second then
                (let s3 = emit (ReportPlaybackProgress (current s2) (secondsToTicks fl (pos s2))) s2
                 in if \<not> progress_ok ev then s3
                    else s3\<lparr>lastProgressUpdate := Clock (clock_after ev)\<rparr>)
              else s2))"

text \<open>The loop over the fetched segments, \<^verbatim>\<open>for start, end := range segments\<close>.\<close>

fun add_segments :: "'f float64 \<Rightarrow> (int \<times> int) list \<Rightarrow> ('f \<times> 'f) list \<Rightarrow> ('f \<times> 'f) list" where
  "add_segments fl [] m = m"
| "add_segments fl ((start, end) # segments) m =
     add_segments fl segments (assign (ticksToSeconds fl start) (ticksToSeconds fl end) m)"

text \<open>The case \<^verbatim>\<open>start-file\<close>.\<close>

definition on_start_file ::
  "'f float64 \<Rightarrow> item list \<Rightarrow> int list \<Rightarrow> env \<Rightarrow> 'f session \<Rightarrow> int \<Rightarrow> 'f outcome" where
  "on_start_file fl items ids ev s k =
     (let id = wrap64 (k - 1)
      in if id \<ge> int (length ids) then UnknownPlaylistID k s
         else
           (case element ids (wrap64 (k - 1)) of
              None \<Rightarrow> Panicked s
            | Some i \<Rightarrow>
                (case element items i of
                   None \<Rightarrow> Panicked s
                 | Some it \<Rightarrow>
                     (let s1 = s\<lparr>current := it\<rparr>;
                          s2 = emit (ReportPlaybackStart (current s1) (secondsToTicks fl (pos s1))) s1;
                          s3 = emit (GetMediaSegments (current s2)) s2;
                          s4 = s3\<lparr>skippableSegments :=
                                    add_segments fl (media_segments ev) (skippableSegments s3)\<rparr>
                      in Running
                           (s4\<lparr>effects := effects s4 @
                                  map (\<lambda>sub. Send (addSubtitle (sub_url sub) (sub_title sub)
                                                      (sub_language sub)))
                                      (externalSubtitles (current s4))\<rparr>)))))"

text \<open>The cases \<^verbatim>\<open>end-file\<close> and \<^verbatim>\<open>shutdown\<close>.\<close>

definition on_stop :: "'f float64 \<Rightarrow> 'f session \<Rightarrow> 'f session" where
  "on_stop fl s = emit (ReportPlaybackStopped (current s) (secondsToTicks fl (pos s))) s"

text \<open>One iteration of the loop, lines 82 to 182 of \<^verbatim>\<open>play.go\<close>.\<close>

definition handle ::
  "'f float64 \<Rightarrow> item list \<Rightarrow> int list \<Rightarrow> env \<Rightarrow> 'f session \<Rightarrow> 'f line \<Rightarrow> 'f outcome" where
  "handle fl items ids ev s l =
     (case l of
        EmptyLine \<Rightarrow> Running s
      | Malformed \<Rightarrow> Running s
      | Message m \<Rightarrow>
          if msg_event m = ''property-change'' then
            (if msg_name m = ''time-pos'' then Running (on_time_pos fl ev s (msg_data m))
             else Running s)
          else if msg_event m = ''start-file'' then
            on_start_file fl items ids ev s (msg_playlist_id m)
          else if msg_event m = ''seek'' then
            Running (s\<lparr>lastProgressUpdate := ZeroTime\<rparr>)
          else if msg_event m = ''end-file'' \<or> msg_event m = ''shutdown'' then
            Running (on_stop fl s)
          else Running s)"

text \<open>
  The loop \<^verbatim>\<open>for mpv.scanner.Scan()\<close> over the lines the stream delivers before it
  ends, each with what its iteration takes from outside. \<open>Running s\<close> as the result
  says that the stream has ended in state \<open>s\<close>; \<^verbatim>\<open>Play\<close> then returns the
  scanner's error, if any.
\<close>

fun event_loop ::
  "'f float64 \<Rightarrow> item list \<Rightarrow> int list \<Rightarrow> ('f line \<times> env) list \<Rightarrow> 'f session \<Rightarrow> 'f outcome" where
  "event_loop fl items ids [] s = Running s"
| "event_loop fl items ids ((l, ev) # rest) s =
     (case handle fl items ids ev s l of
        Running s' \<Rightarrow> event_loop fl items ids rest s'
      | UnknownPlaylistID k s' \<Rightarrow> UnknownPlaylistID k s'
      | Panicked s' \<Rightarrow> Panicked s')"

text \<open>
  The state in which the loop starts, lines 76 to 80: \<open>now\<close> is the reading of
  \<^verbatim>\<open>time.Now()\<close>, \<open>sent_before\<close> the commands sent while the playlist was built.
\<close>

definition initial_session ::
  "'f float64 \<Rightarrow> int \<Rightarrow> item \<Rightarrow> 'f command list \<Rightarrow> 'f session" where
  "initial_session fl now it sent_before =
     \<lparr>pos = of_integer fl 0, lastProgressUpdate = Clock now, current = it,
      skippableSegments = [], effects = map Send sent_before\<rparr>"

text \<open>
  \<^verbatim>\<open>Play\<close> from line 39 on. \<open>observe_ok\<close> and \<open>play_ok\<close> tell whether
  the sends of \<^verbatim>\<open>observe_property\<close> and of the first \<^verbatim>\<open>loadfile\<close> succeed.
\<close>

datatype 'f played =
    Ended "'f outcome"
  | FailedToObserve
  | FailedToPlay
  | PlayPanic

definition Play ::
  "'f float64 \<Rightarrow> bool \<Rightarrow> bool \<Rightarrow> bool \<Rightarrow> int \<Rightarrow> item list \<Rightarrow> int \<Rightarrow> ('f line \<times> env) list
     \<Rightarrow> 'f played" where
  "Play fl oldMpv observe_ok play_ok now items index stream =
     (if \<not> observe_ok then FailedToObserve
      else
        (case build_playlist fl oldMpv play_ok items index of
           BuildPanic \<Rightarrow> PlayPanic
         | FailedToPlayFile cs \<Rightarrow> FailedToPlay
         | Built pl \<Rightarrow>
             (case element items index of
                None \<Rightarrow> PlayPanic
              | Some it \<Rightarrow>
                  Ended (event_loop fl items (playlistIDs pl) stream
                           (initial_session fl now it
                              (observeProperty ''time-pos'' # sent pl))))))"

section \<open>Detecting an old player\<close>

text \<open>
  The functions of Go's standard library that \<^verbatim>\<open>isOldMpv\<close> calls, after their
  documentation. A string is its sequence of bytes.
\<close>

text \<open>\<^verbatim>\<open>bytes.IndexByte\<close>: the index of the first occurrence, \<open>None\<close> for \<^verbatim>\<open>-1\<close>.\<close>

fun IndexByte :: "string \<Rightarrow> char \<Rightarrow> nat option" where
  "IndexByte [] c = None"
| "IndexByte (b # bs) c =
     (if b = c then Some 0
      else (case IndexByte bs c of None \<Rightarrow> None | Some i \<Rightarrow> Some (Suc i)))"

text \<open>
  White space as \<^verbatim>\<open>unicode.IsSpace\<close> defines it, read off the UTF-8 bytes: the
  number of bytes of the white space character at the head of the string, 0 when there
  is none. The characters are U+0009 to U+000D, U+0020, U+0085, U+00A0, U+1680,
  U+2000 to U+200A, U+2028, U+2029, U+202F, U+205F and U+3000.
\<close>

definition space_width :: "string \<Rightarrow> nat" where
  "space_width s =
     (case map of_char s :: nat list of
        [] \<Rightarrow> 0
      | b # bs \<Rightarrow>
          if b = 9 \<or> b = 10 \<or> b = 11 \<or> b = 12 \<or> b = 13 \<or> b = 32 then 1
          else if b = 0xC2 \<and> (take 1 bs = [0x85] \<or> take 1 bs = [0xA0]) then 2
          else if b = 0xE1 \<and> take 2 bs = [0x9A, 0x80] then 3
          else if b = 0xE2 \<and> take 1 bs = [0x80] \<and> length bs \<ge> 2
                  \<and> (let c = bs ! 1
                      in (0x80 \<le> c \<and> c \<le> 0x8A) \<or> c = 0xA8 \<or> c = 0xA9 \<or> c = 0xAF) then 3
          else if b = 0xE2 \<and> take 2 bs = [0x81, 0x9F] then 3
          else if b = 0xE3 \<and> take 2 bs = [0x80, 0x80] then 3
          else 0)"

text \<open>
  \<^verbatim>\<open>bytes.Fields\<close>: the maximal runs of bytes between white space. \<open>cur\<close> is
  the field being read.
\<close>

function Fields_from :: "string \<Rightarrow> string \<Rightarrow> string list" where
  "Fields_from cur s =
     (if s = [] then (if cur = [] then [] else [cur])
      else if space_width s = 0 then Fields_from (cur @ [hd s]) (tl s)
      else (if cur = [] then [] else [cur]) @ Fields_from [] (drop (space_width s) s))"
  by pat_completeness auto
termination
  by (relation "measure (\<lambda>(cur, s). length s)") auto

declare Fields_from.simps [simp del]

definition Fields :: "string \<Rightarrow> string list" where
  "Fields s = Fields_from [] s"

text \<open>\<^verbatim>\<open>strings.TrimPrefix\<close>.\<close>

definition TrimPrefix :: "string \<Rightarrow> string \<Rightarrow> string" where
  "TrimPrefix s prefix =
     (if take (length prefix) s = prefix then drop (length prefix) s else s)"

text \<open>\<^verbatim>\<open>strings.Split\<close> for a separator of one byte, as in both calls.\<close>

fun Split :: "string \<Rightarrow> char \<Rightarrow> string list" where
  "Split [] sep = [[]]"
| "Split (c # cs) sep =
     (if c = sep then [] # Split cs sep
      else (case Split cs sep of
              [] \<Rightarrow> [[c]]
            | p # ps \<Rightarrow> (c # p) # ps))"

text \<open>
  \<^verbatim>\<open>strconv.Atoi\<close>: an optional sign and one or more decimal digits, with a value in
  the range of the 64-bit \<^verbatim>\<open>int\<close>; everything else is an error, \<open>None\<close>.
\<close>

definition is_digit :: "char \<Rightarrow> bool" where
  "is_digit c = (48 \<le> (of_char c :: nat) \<and> (of_char c :: nat) \<le> 57)"

definition digits_value :: "string \<Rightarrow> int" where
  "digits_value ds = foldl (\<lambda>n c. n * 10 + (int (of_char c) - 48)) 0 ds"

definition Atoi :: "string \<Rightarrow> int option" where
  "Atoi s =
     (case s of
        [] \<Rightarrow> None
      | c # r \<Rightarrow>
          (let neg = (c = CHR ''-'');
               ds = (if c = CHR ''-'' \<or> c = CHR ''+'' then r else s)
           in if ds = [] \<or> \<not> list_all is_digit ds then None
              else
                (let n = (if neg then - digits_value ds else digits_value ds)
                 in if - (2 ^ 63) \<le> n \<and> n \<le> 2 ^ 63 - 1 then Some n else None)))"

text \<open>
  The loop \<^verbatim>\<open>for i := range 3\<close> of \<^verbatim>\<open>isOldMpv\<close> over the three parts and the
  target; when it runs to its end the function returns \<^verbatim>\<open>false\<close>.
\<close>

fun compare_parts :: "string list \<Rightarrow> int list \<Rightarrow> bool" where
  "compare_parts (p # ps) (t # ts) =
     (case Atoi p of
        None \<Rightarrow> False
      | Some v \<Rightarrow>
          if v < t then True
          else if v > t then False
          else compare_parts ps ts)"
| "compare_parts ps ts = False"

text \<open>
  \<^verbatim>\<open>isOldMpv\<close>, as a function of what \<^verbatim>\<open>mpv --version\<close> printed; \<open>None\<close>
  when running the command returned an error.
\<close>

definition isOldMpv :: "string option \<Rightarrow> bool" where
  "isOldMpv result =
     (case result of
        None \<Rightarrow> False
      | Some output \<Rightarrow>
          (case IndexByte output (CHR 0x0A) of
             None \<Rightarrow> False
           | Some idx \<Rightarrow>
               (let fields = Fields (take idx output)
                in if length fields < 2 then False
                   else
                     (let version = TrimPrefix (fields ! 1) ''v'';
                          version = hd (Split version (CHR ''-''));
                          parts = Split version (CHR ''.'')
                      in if length parts \<noteq> 3 then False
                         else compare_parts parts [0, 38, 0]))))"

section \<open>Requests\<close>

text \<open>
  The JSON values that \<^verbatim>\<open>json.Marshal\<close> writes for a request. The text of a value
  is the work of \<^verbatim>\<open>encoding/json\<close>.
\<close>

datatype 'f json =
    JString string
  | JInt int
  | JFloat 'f
  | JArray "'f json list"
  | JObject "(string \<times> 'f json) list"

record 'f request =
  Command :: "'f command"
  ID :: int

definition arg_json :: "'f arg \<Rightarrow> 'f json" where
  "arg_json a =
     (case a of
        AStr s \<Rightarrow> JString s
      | AInt n \<Rightarrow> JInt n
      | AFloat x \<Rightarrow> JFloat x
      | AMap kvs \<Rightarrow> JObject (map (\<lambda>(k, v). (k, JString v)) kvs))"

definition marshalable :: "'f float64 \<Rightarrow> 'f arg \<Rightarrow> bool" where
  "marshalable fl a = (case a of AFloat x \<Rightarrow> is_finite fl x | _ \<Rightarrow> True)"

text \<open>
  \<^verbatim>\<open>json.Marshal\<close> of a \<^verbatim>\<open>request\<close>: the field \<^verbatim>\<open>command\<close>, then the field
  \<^verbatim>\<open>request_id\<close>, whose tag says \<^verbatim>\<open>omitempty\<close>, unless it is 0. A float that is
  not finite is an error, \<open>None\<close>.
\<close>

definition Marshal :: "'f float64 \<Rightarrow> 'f request \<Rightarrow> 'f json option" where
  "Marshal fl req =
     (if list_all (marshalable fl) (Command req) then
        Some (JObject
                ([(''command'', JArray (map arg_json (Command req)))]
                 @ (if ID req = 0 then [] else [(''request_id'', JInt (ID req))])))
      else None)"

text \<open>
  \<^verbatim>\<open>send\<close>. \<open>n\<close> is the value of \<^verbatim>\<open>rand.Intn(1000)\<close>, \<open>write_ok\<close> tells
  whether the write to the socket succeeds.
\<close>

datatype 'f sent = Written "'f json" | FailedToMarshal | FailedToWrite

definition send :: "'f float64 \<Rightarrow> int \<Rightarrow> bool \<Rightarrow> 'f command \<Rightarrow> 'f sent" where
  "send fl n write_ok command =
     (case Marshal fl \<lparr>Command = command, ID = n\<rparr> of
        None \<Rightarrow> FailedToMarshal
      | Some j \<Rightarrow> if write_ok then Written j else FailedToWrite)"

definition field :: "string \<Rightarrow> 'f json \<Rightarrow> 'f json option" where
  "field k j = (case j of JObject kvs \<Rightarrow> map_of kvs k | _ \<Rightarrow> None)"

section \<open>Exact arithmetic as an instance of the float operations\<close>

text \<open>
  The operations on rational numbers without rounding. They agree with binary64 on
  arguments that are binary64 values whenever the exact result is one too (and lies in
  the range of \<^verbatim>\<open>int64\<close> for the conversion, which truncates towards zero). The
  concrete runs below use small whole numbers of seconds only.
\<close>

definition round_half_even :: "rat \<Rightarrow> int" where
  "round_half_even x =
     (let f = \<lfloor>x\<rfloor>; d = x - of_int f
      in if d < 1 / 2 then f
         else if d > 1 / 2 then f + 1
         else if even f then f else f + 1)"

function decimal :: "nat \<Rightarrow> string" where
  "decimal n =
     (if n < 10 then [''0123456789'' ! n]
      else decimal (n div 10) @ [''0123456789'' ! (n mod 10)])"
  by pat_completeness auto
termination
  by (relation "measure id") auto

declare decimal.simps [simp del]

definition format_f6_rat :: "rat \<Rightarrow> string" where
  "format_f6_rat x =
     (let n = nat (round_half_even (\<bar>x\<bar> * 1000000))
      in (if x < 0 then ''-'' else []) @ decimal (n div 1000000) @ ''.''
         @ map (\<lambda>k. ''0123456789'' ! (n div 10 ^ k mod 10)) [5, 4, 3, 2, 1, 0])"

definition exact64 :: "rat float64" where
  "exact64 =
     \<lparr>of_integer = of_int,
      to_int64 = (\<lambda>x. if 0 \<le> x then \<lfloor>x\<rfloor> else \<lceil>x\<rceil>),
      fmul = (\<lambda>x y. x * y),
      fdiv = (\<lambda>x y. x / y),
      fless = (\<lambda>x y. x < y),
      fgeq = (\<lambda>x y. x \<ge> y),
      is_finite = (\<lambda>x. True),
      format_f6 = format_f6_rat\<rparr>"

text \<open>Episodes for the concrete runs: no resume position and no external subtitles.\<close>

definition episode :: "string \<Rightarrow> item" where
  "episode t =
     \<lparr>streamingURL = ''http://host/Videos/'' @ t @ ''/stream'', mediaTitle = t,
      resumePosition = 0, externalSubtitles = []\<rparr>"

text \<open>
  For the statement of the load order: the command that \<^verbatim>\<open>Play\<close> sends to load item
  \<open>i\<close> of the list when \<open>s\<close> is the start index, namely \<^verbatim>\<open>playFile\<close> for
  \<open>s\<close> itself, \<^verbatim>\<open>appendFile\<close> for a later item and \<^verbatim>\<open>prependFile\<close> for an
  earlier one.
\<close>

definition load_command :: "'f float64 \<Rightarrow> bool \<Rightarrow> item list \<Rightarrow> int \<Rightarrow> int \<Rightarrow> 'f command" where
  "load_command fl oldMpv items s i =
     (let it = items ! nat i
      in if i = s then
           playFile fl oldMpv (streamingURL it) (mediaTitle it)
             (ticksToSeconds fl (resumePosition it))
         else if s < i then appendFile oldMpv (streamingURL it) (mediaTitle it)
         else (case prependFile oldMpv (streamingURL it) (mediaTitle it) of
                 None \<Rightarrow> [] | Some c \<Rightarrow> c))"

text \<open>Messages and surroundings for the concrete runs.\<close>

definition event_message :: "string \<Rightarrow> 'f message" where
  "event_message e =
     \<lparr>msg_error = [], msg_request_id = 0, msg_event = e, msg_name = [], msg_reason = [],
      msg_data = DataNil, msg_playlist_id = 0\<rparr>"

definition start_file :: "int \<Rightarrow> 'f message" where
  "start_file k = (event_message ''start-file'')\<lparr>msg_playlist_id := k\<rparr>"

definition time_pos :: "'f \<Rightarrow> 'f message" where
  "time_pos x =
     (event_message ''property-change'')\<lparr>msg_name := ''time-pos'', msg_data := DataNumber x\<rparr>"

text \<open>
  An iteration at clock reading \<open>t\<close> (in nanoseconds) in which a progress report, if
  made, succeeds at once, and a fetch of segments returns \<open>segs\<close>.
\<close>

definition at_clock :: "int \<Rightarrow> (int \<times> int) list \<Rightarrow> env" where
  "at_clock t segs = \<lparr>clock = t, clock_after = t, progress_ok = True, media_segments = segs\<rparr>"

text \<open>
  For the statements about positions: the value of \<^verbatim>\<open>pos\<close> after the lines
  \<open>ls\<close>, started from \<open>p\<close>, namely the number carried by the last
  \<^verbatim>\<open>property-change\<close> of \<^verbatim>\<open>time-pos\<close> with numeric data, and \<open>p\<close> when there is
  none.
\<close>

fun last_position :: "'f \<Rightarrow> 'f line list \<Rightarrow> 'f" where
  "last_position p [] = p"
| "last_position p (l # ls) =
     last_position
       (case l of
          Message m \<Rightarrow>
            (if msg_event m = ''property-change'' \<and> msg_name m = ''time-pos'' then
               (case msg_data m of DataNumber x \<Rightarrow> x | _ \<Rightarrow> p)
             else p)
        | _ \<Rightarrow> p) ls"

text \<open>The session an outcome carries.\<close>

definition session_of :: "'f outcome \<Rightarrow> 'f session" where
  "session_of out =
     (case out of Running s \<Rightarrow> s | UnknownPlaylistID k s \<Rightarrow> s | Panicked s \<Rightarrow> s)"

text \<open>
  Modelled from the spec: the methods \<^verbatim>\<open>ReportPlaybackStart\<close>,
  \<^verbatim>\<open>ReportPlaybackProgress\<close> and \<^verbatim>\<open>ReportPlaybackStopped\<close> of the client that
  \<^verbatim>\<open>Play\<close> calls, of package \<^verbatim>\<open>internal/jellyfin\<close>, are not among the sources
  (\<^verbatim>\<open>jellyfin/client.go\<close> is another package: it has no \<^verbatim>\<open>ReportPlaybackStart\<close>, and
  its reports take whole seconds and return no error). The spec has them as
  ``report playback start/progress/stop (item, position in ticks) each returning
  success-or-error'': the position a report transmits is the position it is given.
\<close>

definition transmitted :: "'f effect \<Rightarrow> int option" where
  "transmitted e =
     (case e of
        ReportPlaybackStart it ticks \<Rightarrow> Some ticks
      | ReportPlaybackProgress it ticks \<Rightarrow> Some ticks
      | ReportPlaybackStopped it ticks \<Rightarrow> Some ticks
      | _ \<Rightarrow> None)"

text \<open>
  For the statement of the debounce. A line is a numeric \<^verbatim>\<open>time-pos\<close> event, a
  \<^verbatim>\<open>seek\<close> event, or neither.
\<close>

definition numeric_time_pos :: "'f line \<Rightarrow> bool" where
  "numeric_time_pos l =
     (case l of
        Message m \<Rightarrow>
          msg_event m = ''property-change'' \<and> msg_name m = ''time-pos''
          \<and> (case msg_data m of DataNumber x \<Rightarrow> True | _ \<Rightarrow> False)
      | _ \<Rightarrow> False)"

definition seek_event :: "'f line \<Rightarrow> bool" where
  "seek_event l = (case l of Message m \<Rightarrow> msg_event m = ''seek'' | _ \<Rightarrow> False)"

text \<open>
  The debounce timestamp after the lines of a run, told from the run alone: it starts
  as \<open>t\<close>; a \<^verbatim>\<open>seek\<close> event makes it the zero time; a numeric \<^verbatim>\<open>time-pos\<close>
  event that comes more than 3 seconds after the timestamp, and whose progress report
  succeeds, makes it the time after that report; every other line leaves it as it is.
\<close>

definition timestamp_after :: "gotime \<Rightarrow> 'f line \<Rightarrow> env \<Rightarrow> gotime" where
  "timestamp_after t l ev =
     (if seek_event l then ZeroTime
      else if numeric_time_pos l \<and> since (clock ev) t > 3 * second \<and> progress_ok ev
           then Clock (clock_after ev)
      else t)"

fun debounce_timestamp :: "gotime \<Rightarrow> ('f line \<times> env) list \<Rightarrow> gotime" where
  "debounce_timestamp t [] = t"
| "debounce_timestamp t ((l, ev) # rest) = debounce_timestamp (timestamp_after t l ev) rest"

section \<open>The playlist and its slot map\<close>

lemma append_loop_closed:
  "0 \<le> i \<Longrightarrow> append_loop oldMpv items i pl =
     Some (pl\<lparr>sent := sent pl @
                   map (\<lambda>j. appendFile oldMpv (streamingURL (items ! nat j))
                              (mediaTitle (items ! nat j)))
                       [i..int (length items) - 1],
              playlistIDs := playlistIDs pl @ [i..int (length items) - 1]\<rparr>)"
proof (induction oldMpv items i pl rule: append_loop.induct)
  case (1 oldMpv items i pl)
  show ?case
  proof (cases "i < int (length items)")
    case True
    with "1.prems" have a: "element items i = Some (items ! nat i)"
      by (simp add: element_def)
    have u: "[i..int (length items) - 1] = i # [i + 1..int (length items) - 1]"
      using True by (simp add: upto_rec1)
    show ?thesis
      using True "1.prems" "1.IH"[OF True a]
      by (subst append_loop.simps) (simp add: a u)
  next
    case False
    then show ?thesis by (subst append_loop.simps) simp
  qed
qed

lemma prepend_loop_closed:
  "i < int (length items) \<Longrightarrow> prepend_loop oldMpv items i pl =
     Some (pl\<lparr>sent := sent pl @
                   concat (map (\<lambda>j. case prependFile oldMpv (streamingURL (items ! nat j))
                                             (mediaTitle (items ! nat j)) of
                                        None \<Rightarrow> [] | Some c \<Rightarrow> [c])
                               (rev [0..i])),
              playlistIDs := playlistIDs pl @ rev [0..i]\<rparr>)"
proof (induction oldMpv items i pl rule: prepend_loop.induct)
  case (1 oldMpv items i pl)
  show ?case
  proof (cases "i \<ge> 0")
    case True
    with "1.prems" have a: "element items i = Some (items ! nat i)"
      by (simp add: element_def)
    have u: "[0..i] = [0..i - 1] @ [i]"
      using True by (simp add: upto_rec2)
    show ?thesis
      using True "1.prems" "1.IH"[OF True a]
      by (subst prepend_loop.simps) (simp add: a u)
  next
    case False
    then show ?thesis by (subst prepend_loop.simps) simp
  qed
qed

lemma prepends_old:
  "concat (map (\<lambda>j. case prependFile True (u j) (t j) of None \<Rightarrow> [] | Some c \<Rightarrow> [c]) xs)
     = ([] :: 'f command list)"
  by (induction xs) (simp_all add: prependFile_def)

lemma prepends_current:
  "\<forall>j \<in> set xs. j < s \<Longrightarrow>
   concat (map (\<lambda>j. case prependFile False (streamingURL (items ! nat j))
                             (mediaTitle (items ! nat j)) of
                        None \<Rightarrow> [] | Some c \<Rightarrow> [c]) xs)
     = map (load_command fl False items s) xs"
  by (induction xs) (simp_all add: prependFile_def load_command_def Let_def)

lemma appends_load:
  "\<forall>j \<in> set xs. s < j \<Longrightarrow>
   map (\<lambda>j. appendFile oldMpv (streamingURL (items ! nat j)) (mediaTitle (items ! nat j))) xs
     = map (load_command fl oldMpv items s) xs"
  by (induction xs) (simp_all add: load_command_def Let_def)

text \<open>
  C1, as amended. For every list of items and every start index \<open>s\<close> within it, when
  the first \<^verbatim>\<open>loadfile\<close> is sent successfully, \<^verbatim>\<open>Play\<close> sends the load-replace for
  item \<open>s\<close>, then the load-appends for the items \<open>s+1\<close> to \<open>n-1\<close> ascending, and,
  on a player that is not old, then the load-insert-at-front commands for the items
  \<open>s-1\<close> down to \<open>0\<close>; an old player is sent no insert-at-front. On a player that
  is not old the slot map lists the same indices in the same order, so slot \<open>k\<close> is
  the index of the item that the \<open>k\<close>-th command loads.
\<close>

theorem play_load_order:
  assumes "0 \<le> s" and "s < int (length items)"
  shows "\<exists>pl. build_playlist fl oldMpv True items s = Built pl
           \<and> sent pl = map (load_command fl oldMpv items s)
                          (s # [s + 1..int (length items) - 1]
                           @ (if oldMpv then [] else rev [0..s - 1]))
           \<and> (\<not> oldMpv \<longrightarrow>
                playlistIDs pl = s # [s + 1..int (length items) - 1] @ rev [0..s - 1])"
proof -
  have a: "element items s = Some (items ! nat s)"
    using assms by (simp add: element_def)
  have p: "s - 1 < int (length items)" using assms by simp
  have q: "0 \<le> s + 1" using assms by simp
  have l1: "map (\<lambda>j. appendFile oldMpv (streamingURL (items ! nat j))
                       (mediaTitle (items ! nat j))) [s + 1..int (length items) - 1]
     = map (load_command fl oldMpv items s) [s + 1..int (length items) - 1]"
    by (rule appends_load) simp
  have l2: "concat (map (\<lambda>j. case prependFile False (streamingURL (items ! nat j))
                                     (mediaTitle (items ! nat j)) of
                                None \<Rightarrow> [] | Some c \<Rightarrow> [c]) (rev [0..s - 1]))
     = map (load_command fl False items s) (rev [0..s - 1])"
    by (rule prepends_current) simp
  show ?thesis
  proof (cases oldMpv)
    case True
    then show ?thesis
      using l1
      by (simp add: build_playlist_def a append_loop_closed[OF q] prepend_loop_closed[OF p]
          prepends_old load_command_def Let_def)
  next
    case False
    then show ?thesis
      using l1 l2
      by (simp add: build_playlist_def a append_loop_closed[OF q] prepend_loop_closed[OF p]
          load_command_def Let_def)
  qed
qed

text \<open>
  The items \<open>[A, B, C, D]\<close> with start index 2 on a current player: replace C, append D,
  insert B at the front, insert A at the front, and the slot map \<open>[2, 3, 1, 0]\<close>.
\<close>

theorem play_load_order_witness:
  "build_playlist exact64 False True (map episode [''A'', ''B'', ''C'', ''D'']) 2 =
     Built \<lparr>playlistIDs = [2, 3, 1, 0],
            sent = [playFile exact64 False ''http://host/Videos/C/stream'' ''C''
                      (ticksToSeconds exact64 0),
                    appendFile False ''http://host/Videos/D/stream'' ''D'',
                    [AStr ''loadfile'', AStr ''http://host/Videos/B/stream'',
                     AStr ''insert-at'', AInt 0, AMap [(''force-media-title'', ''B'')]],
                    [AStr ''loadfile'', AStr ''http://host/Videos/A/stream'',
                     AStr ''insert-at'', AInt 0, AMap [(''force-media-title'', ''A'')]]]\<rparr>"
proof -
  have u: "[0..(1::int)] = [0, 1]"
    by (simp add: upto.simps)
  obtain pl where
    b: "build_playlist exact64 False True (map episode [''A'', ''B'', ''C'', ''D'']) 2 = Built pl"
    and c: "sent pl = map (load_command exact64 False (map episode [''A'', ''B'', ''C'', ''D'']) 2)
                        [2, 3, 1, 0]"
    and i: "playlistIDs pl = [2, 3, 1, 0]"
    using play_load_order [of 2 "map episode [''A'', ''B'', ''C'', ''D'']" exact64 False]
    by (auto simp: u)
  have "pl = \<lparr>playlistIDs = [2, 3, 1, 0],
            sent = [playFile exact64 False ''http://host/Videos/C/stream'' ''C''
                      (ticksToSeconds exact64 0),
                    appendFile False ''http://host/Videos/D/stream'' ''D'',
                    [AStr ''loadfile'', AStr ''http://host/Videos/B/stream'',
                     AStr ''insert-at'', AInt 0, AMap [(''force-media-title'', ''B'')]],
                    [AStr ''loadfile'', AStr ''http://host/Videos/A/stream'',
                     AStr ''insert-at'', AInt 0, AMap [(''force-media-title'', ''A'')]]]\<rparr>"
    using c i by (cases pl) (simp add: load_command_def episode_def prependFile_def)
  with b show ?thesis by simp
qed

text \<open>
  C1 as stated fails on an old player: for \<open>[A, B, C, D]\<close> and start index 2 only
  replace C and append D are sent, and no insert-at-front.
\<close>

theorem old_player_sends_no_insert:
  "build_playlist exact64 True True (map episode [''A'', ''B'', ''C'', ''D'']) 2 =
     Built \<lparr>playlistIDs = [2, 3, 1, 0],
            sent = [playFile exact64 True ''http://host/Videos/C/stream'' ''C''
                      (ticksToSeconds exact64 0),
                    appendFile True ''http://host/Videos/D/stream'' ''D'']\<rparr>"
  by (simp add: build_playlist_def element_def episode_def prependFile_def
      append_loop.simps prepend_loop.simps Let_def)

text \<open>
  C7 at the failing input: an old player, the items \<open>[A, B]\<close> and start index 1. One
  command is sent, and the slot map has two entries.
\<close>

theorem old_player_slot_map_longer:
  "build_playlist exact64 True True (map episode [''A'', ''B'']) 1 =
     Built \<lparr>playlistIDs = [1, 0],
            sent = [playFile exact64 True ''http://host/Videos/B/stream'' ''B''
                      (ticksToSeconds exact64 0)]\<rparr>"
  by (simp add: build_playlist_def element_def episode_def prependFile_def
      append_loop.simps prepend_loop.simps Let_def)

section \<open>The event loop: slots, segments, termination\<close>

text \<open>
  C2 at the failing input: a \<^verbatim>\<open>start-file\<close> event with slot number 0, which is what a
  message without \<^verbatim>\<open>playlist_entry_id\<close> decodes to. The check
  \<^verbatim>\<open>id >= len(playlistIDs)\<close> lets the index \<open>-1\<close> through, and indexing the slot
  map with it panics: no error is returned.
\<close>

theorem start_file_slot_zero_panics:
  "handle fl items ids ev s (Message (start_file 0)) = Panicked s"
  by (simp add: handle_def start_file_def event_message_def on_start_file_def wrap64_def
      element_def)

text \<open>
  C3 at the failing input: item A starts with the fetched segment from 10 s to 20 s, then
  item B starts with the fetched segment from 30 s to 40 s. The segment of A is still in
  the set while B plays.
\<close>

theorem segments_are_merged:
  "\<exists>s. event_loop exact64 (map episode [''A'', ''B'']) [0, 1]
          [(Message (start_file 1), at_clock 0 [(100000000, 200000000)]),
           (Message (start_file 2), at_clock 0 [(300000000, 400000000)])]
          (initial_session exact64 0 (episode ''A'') []) = Running s
      \<and> current s = episode ''B''
      \<and> skippableSegments s = [(10, 20), (30, 40)]"
  by (simp add: handle_def start_file_def event_message_def on_start_file_def wrap64_def
      element_def initial_session_def at_clock_def emit_def Let_def ticksToSeconds_def
      exact64_def)

lemma event_loop_append:
  "event_loop fl items ids (pre @ post) s =
     (case event_loop fl items ids pre s of
        Running s' \<Rightarrow> event_loop fl items ids post s'
      | UnknownPlaylistID k s' \<Rightarrow> UnknownPlaylistID k s'
      | Panicked s' \<Rightarrow> Panicked s')"
proof (induction pre arbitrary: s)
  case Nil
  show ?case by simp
next
  case (Cons a pre)
  obtain l ev where a: "a = (l, ev)" by (cases a)
  show ?case
    by (cases "handle fl items ids ev s l") (simp_all add: a Cons.IH)
qed

text \<open>
  C6, as amended. A \<^verbatim>\<open>shutdown\<close> event makes the loop report that playback stopped, at
  the current position, and go on: the lines that follow it in the stream are processed
  from the state so reached, like any others. The loop ends when the stream ends (or a
  \<^verbatim>\<open>start-file\<close> event ends \<^verbatim>\<open>Play\<close>).
\<close>

theorem loop_goes_on_after_shutdown:
  "event_loop fl items ids (pre @ (Message (event_message ''shutdown''), ev) # post) s =
     (case event_loop fl items ids pre s of
        Running s' \<Rightarrow>
          event_loop fl items ids post
            (s'\<lparr>effects := effects s' @
                   [ReportPlaybackStopped (current s') (secondsToTicks fl (pos s'))]\<rparr>)
      | UnknownPlaylistID k s' \<Rightarrow> UnknownPlaylistID k s'
      | Panicked s' \<Rightarrow> Panicked s')"
  by (cases "event_loop fl items ids pre s")
     (simp_all add: event_loop_append handle_def event_message_def on_stop_def emit_def)

text \<open>Two \<^verbatim>\<open>shutdown\<close> events in a row: two reports.\<close>

theorem loop_goes_on_after_shutdown_witness:
  "event_loop exact64 (map episode [''A'', ''B'']) [0, 1]
     ([] @ (Message (event_message ''shutdown''), at_clock 0 [])
         # [(Message (event_message ''shutdown''), at_clock 0 [])])
     (initial_session exact64 0 (episode ''A'') []) =
   Running ((initial_session exact64 0 (episode ''A'') [])
              \<lparr>effects := [ReportPlaybackStopped (episode ''A'') 0,
                           ReportPlaybackStopped (episode ''A'') 0]\<rparr>)"
  using loop_goes_on_after_shutdown [of exact64 "map episode [''A'', ''B'']" "[0, 1]" "[]"
      "at_clock 0 []" "[(Message (event_message ''shutdown''), at_clock 0 [])]"
      "initial_session exact64 0 (episode ''A'') []"]
  by (simp add: handle_def event_message_def on_stop_def emit_def initial_session_def
      secondsToTicks_def exact64_def)

text \<open>
  C6 as stated fails: a \<^verbatim>\<open>start-file\<close> event that follows a \<^verbatim>\<open>shutdown\<close> event
  is processed; item B becomes current and its start is reported.
\<close>

theorem message_after_shutdown_is_processed:
  "event_loop exact64 (map episode [''A'', ''B'']) [0, 1]
     [(Message (event_message ''shutdown''), at_clock 0 []),
      (Message (start_file 2), at_clock 0 [])]
     (initial_session exact64 0 (episode ''A'') []) =
   Running ((initial_session exact64 0 (episode ''A'') [])
              \<lparr>current := episode ''B'',
               effects := [ReportPlaybackStopped (episode ''A'') 0,
                           ReportPlaybackStart (episode ''B'') 0,
                           GetMediaSegments (episode ''B'')]\<rparr>)"
  by (simp add: handle_def start_file_def event_message_def on_start_file_def wrap64_def
      element_def initial_session_def at_clock_def emit_def Let_def on_stop_def
      secondsToTicks_def exact64_def episode_def)

section \<open>Positions and reports\<close>

lemma on_time_pos_pos:
  "pos (on_time_pos fl ev s d) = (case d of DataNumber x \<Rightarrow> x | _ \<Rightarrow> pos s)"
  by (cases d) (simp_all add: on_time_pos_def Let_def emit_def)

lemma on_start_file_pos:
  "on_start_file fl items ids ev s k = Running s' \<Longrightarrow> pos s' = pos s"
  by (auto simp: on_start_file_def Let_def emit_def split: if_splits option.splits)

lemma handle_pos:
  "handle fl items ids ev s l = Running s' \<Longrightarrow> pos s' = last_position (pos s) [l]"
  by (cases l)
     (auto simp: handle_def on_time_pos_pos on_start_file_pos on_stop_def emit_def
           split: if_splits data.splits)

lemma event_loop_pos:
  "event_loop fl items ids stream s = Running s'
     \<Longrightarrow> pos s' = last_position (pos s) (map fst stream)"
proof (induction stream arbitrary: s)
  case Nil
  then show ?case by simp
next
  case (Cons a stream)
  obtain l ev where a: "a = (l, ev)" by (cases a)
  from Cons.prems obtain s1 where
    h: "handle fl items ids ev s l = Running s1"
    and r: "event_loop fl items ids stream s1 = Running s'"
    by (auto simp: a split: outcome.splits)
  from handle_pos[OF h] Cons.IH[OF r] show ?case
    by (simp add: a)
qed

lemma on_start_file_effects:
  "on_start_file fl items ids ev s k = Running s' \<Longrightarrow>
     effects s' = effects s @ ReportPlaybackStart (current s') (secondsToTicks fl (pos s))
                    # GetMediaSegments (current s')
                    # map (\<lambda>sub. Send (addSubtitle (sub_url sub) (sub_title sub) (sub_language sub)))
                        (externalSubtitles (current s'))"
  by (auto simp: on_start_file_def Let_def emit_def split: if_splits option.splits)

text \<open>
  C10. Processing a \<^verbatim>\<open>start-file\<close> event leaves the position unchanged. The position
  is the number of the last numeric \<^verbatim>\<open>time-pos\<close> event processed before, or 0 if there
  was none, and the report of the start carries that position converted to ticks, whatever
  the item that starts and its resume position.
\<close>

theorem start_report_at_last_position:
  assumes "event_loop fl items ids pre (initial_session fl now it cs) = Running s"
    and "msg_event m = ''start-file''"
    and "handle fl items ids ev s (Message m) = Running s'"
  shows "pos s' = pos s
       \<and> pos s = last_position (of_integer fl 0) (map fst pre)
       \<and> (\<exists>rest. effects s' =
             effects s @ ReportPlaybackStart (current s')
                           (secondsToTicks fl (last_position (of_integer fl 0) (map fst pre)))
                         # rest)"
proof -
  have p: "pos s = last_position (of_integer fl 0) (map fst pre)"
    using event_loop_pos[OF assms(1)] by (simp add: initial_session_def)
  have o: "on_start_file fl items ids ev s (msg_playlist_id m) = Running s'"
    using assms(2,3) by (simp add: handle_def)
  show ?thesis
    using p on_start_file_pos[OF o] on_start_file_effects[OF o] by simp
qed

lemma on_time_pos_effects:
  "effects (on_time_pos fl ev s (DataNumber x)) =
     effects s
     @ (if isInsideSkippableSegment fl (skippableSegments s) x \<noteq> of_integer fl 0
        then [Send (seekTo (isInsideSkippableSegment fl (skippableSegments s) x))] else [])
     @ (if since (clock ev) (lastProgressUpdate s) > 3 * second
        then [ReportPlaybackProgress (current s) (secondsToTicks fl x)] else [])"
  by (simp add: on_time_pos_def Let_def emit_def)

lemma on_time_pos_timestamp:
  "lastProgressUpdate (on_time_pos fl ev s (DataNumber x)) =
     (if since (clock ev) (lastProgressUpdate s) > 3 * second \<and> progress_ok ev
      then Clock (clock_after ev) else lastProgressUpdate s)"
  by (simp add: on_time_pos_def Let_def emit_def)

lemma handle_reports:
  "\<exists>new. effects (session_of (handle fl items ids ev s l)) = effects s @ new
      \<and> (\<forall>e \<in> set new. \<forall>t. transmitted e = Some t \<longrightarrow>
             t = secondsToTicks fl (pos (session_of (handle fl items ids ev s l))))"
proof (cases "handle fl items ids ev s l")
  case (Running s')
  show ?thesis
  proof (cases l)
    case EmptyLine
    then show ?thesis by (simp add: handle_def session_of_def)
  next
    case Malformed
    then show ?thesis by (simp add: handle_def session_of_def)
  next
    case (Message m)
    consider (tp) "msg_event m = ''property-change''" "msg_name m = ''time-pos''"
      | (other_prop) "msg_event m = ''property-change''" "msg_name m \<noteq> ''time-pos''"
      | (start) "msg_event m = ''start-file''"
      | (seek) "msg_event m = ''seek''"
      | (stop) "msg_event m = ''end-file'' \<or> msg_event m = ''shutdown''"
      | (ignored) "msg_event m \<noteq> ''property-change''" "msg_event m \<noteq> ''start-file''"
          "msg_event m \<noteq> ''seek''" "msg_event m \<noteq> ''end-file''" "msg_event m \<noteq> ''shutdown''"
      by blast
    then show ?thesis
    proof cases
      case tp
      then have h: "handle fl items ids ev s l = Running (on_time_pos fl ev s (msg_data m))"
        by (simp add: handle_def Message)
      show ?thesis
      proof (cases "msg_data m")
        case (DataNumber x)
        show ?thesis
          by (auto simp: h session_of_def DataNumber on_time_pos_effects on_time_pos_pos
              transmitted_def)
      qed (simp_all add: h session_of_def on_time_pos_def)
    next
      case other_prop
      then show ?thesis by (simp add: handle_def Message session_of_def)
    next
      case start
      then have h: "on_start_file fl items ids ev s (msg_playlist_id m) = Running s'"
        using Running by (simp add: handle_def Message)
      have "handle fl items ids ev s l = Running s'" by (rule Running)
      then show ?thesis
        using on_start_file_effects[OF h] on_start_file_pos[OF h]
        by (auto simp: session_of_def transmitted_def)
    next
      case seek
      then show ?thesis by (simp add: handle_def Message session_of_def)
    next
      case stop
      then show ?thesis
        by (auto simp: handle_def Message session_of_def on_stop_def emit_def transmitted_def)
    next
      case ignored
      then show ?thesis by (simp add: handle_def Message session_of_def)
    qed
  qed
next
  case (UnknownPlaylistID k s')
  then have "s' = s"
    by (cases l)
       (auto simp: handle_def on_start_file_def Let_def split: if_splits option.splits)
  with UnknownPlaylistID show ?thesis by (simp add: session_of_def)
next
  case (Panicked s')
  then have "s' = s"
    by (cases l)
       (auto simp: handle_def on_start_file_def Let_def split: if_splits option.splits)
  with Panicked show ?thesis by (simp add: session_of_def)
qed

lemma handle_session_unchanged:
  "handle fl items ids ev s l = UnknownPlaylistID k s' \<or> handle fl items ids ev s l = Panicked s'
     \<Longrightarrow> s' = s"
  by (cases l) (auto simp: handle_def on_start_file_def Let_def split: if_splits option.splits)

lemma last_position_step:
  "last_position (last_position p [l]) ls = last_position p (l # ls)"
  by simp

lemma event_loop_reports:
  "\<exists>new. effects (session_of (event_loop fl items ids stream s)) = effects s @ new
      \<and> (\<forall>e \<in> set new. \<forall>t. transmitted e = Some t \<longrightarrow>
             (\<exists>i \<le> length stream.
                t = secondsToTicks fl (last_position (pos s) (map fst (take i stream)))))"
proof (induction stream arbitrary: s)
  case Nil
  show ?case by (simp add: session_of_def)
next
  case (Cons a stream)
  obtain l ev where a: "a = (l, ev)" by (cases a)
  obtain new1 where
    n1: "effects (session_of (handle fl items ids ev s l)) = effects s @ new1"
    and r1: "\<forall>e \<in> set new1. \<forall>t. transmitted e = Some t \<longrightarrow>
               t = secondsToTicks fl (pos (session_of (handle fl items ids ev s l)))"
    using handle_reports [of fl items ids ev s l] by blast
  show ?case
  proof (cases "handle fl items ids ev s l")
    case (Running s1)
    have p1: "pos s1 = last_position (pos s) [l]"
      using handle_pos[OF Running] .
    obtain new2 where
      n2: "effects (session_of (event_loop fl items ids stream s1)) = effects s1 @ new2"
      and r2: "\<forall>e \<in> set new2. \<forall>t. transmitted e = Some t \<longrightarrow>
             (\<exists>i \<le> length stream.
                t = secondsToTicks fl (last_position (pos s1) (map fst (take i stream))))"
      using Cons.IH [of s1] by blast
    have e: "effects (session_of (event_loop fl items ids (a # stream) s)) = effects s @ (new1 @ new2)"
      using n1 n2 Running by (simp add: a session_of_def)
    have "\<exists>i \<le> length (a # stream).
             t = secondsToTicks fl (last_position (pos s) (map fst (take i (a # stream))))"
      if m: "e \<in> set (new1 @ new2)" and t: "transmitted e = Some t" for e t
    proof (cases "e \<in> set new1")
      case True
      with r1 t Running p1 have "t = secondsToTicks fl (last_position (pos s) (map fst (take 1 (a # stream))))"
        by (simp add: session_of_def a)
      then show ?thesis by (intro exI[of _ 1]) simp
    next
      case False
      with m have "e \<in> set new2" by simp
      with r2 t obtain i where i: "i \<le> length stream"
        and ti: "t = secondsToTicks fl (last_position (pos s1) (map fst (take i stream)))"
        by blast
      have "t = secondsToTicks fl (last_position (pos s) (map fst (take (Suc i) (a # stream))))"
        using ti p1 by (simp add: a)
      with i show ?thesis by (intro exI[of _ "Suc i"]) simp
    qed
    with e show ?thesis by blast
  next
    case (UnknownPlaylistID k s1)
    then have "s1 = s" using handle_session_unchanged by blast
    with UnknownPlaylistID show ?thesis by (simp add: a session_of_def)
  next
    case (Panicked s1)
    then have "s1 = s" using handle_session_unchanged by blast
    with Panicked show ?thesis by (simp add: a session_of_def)
  qed
qed

text \<open>
  C8. Every report (of a start, of progress or of a stop) transmits
  \<^verbatim>\<open>secondsToTicks\<close> of the current position, ticks being the seconds times
  10,000,000 converted to \<^verbatim>\<open>int64\<close>: whatever the line, a report made while it is
  processed carries the position that is current when the iteration ends, which is the
  position when the report is made; and over a whole run of the loop every report
  carries the position reached after some of the lines.
\<close>

theorem reports_carry_current_position:
  "(\<exists>new. effects (session_of (handle fl items ids ev s l)) = effects s @ new
      \<and> (\<forall>e \<in> set new. \<forall>t. transmitted e = Some t \<longrightarrow>
             t = secondsToTicks fl (pos (session_of (handle fl items ids ev s l)))))
   \<and> (\<exists>new. effects (session_of (event_loop fl items ids stream s)) = effects s @ new
      \<and> (\<forall>e \<in> set new. \<forall>t. transmitted e = Some t \<longrightarrow>
             (\<exists>i \<le> length stream.
                t = secondsToTicks fl (last_position (pos s) (map fst (take i stream))))))"
  using handle_reports [of fl items ids ev s l] event_loop_reports [of fl items ids stream s]
  by blast

lemma since_zero_time: "since now ZeroTime > 3 * second"
  by (simp add: since_def maxDuration_def second_def)

lemma on_start_file_timestamp:
  "on_start_file fl items ids ev s k = Running s' \<Longrightarrow> lastProgressUpdate s' = lastProgressUpdate s"
  by (auto simp: on_start_file_def Let_def emit_def split: if_splits option.splits)

lemma handle_timestamp:
  "handle fl items ids ev s l = Running s'
     \<Longrightarrow> lastProgressUpdate s' = timestamp_after (lastProgressUpdate s) l ev"
proof (cases l)
  case EmptyLine
  then show "handle fl items ids ev s l = Running s' \<Longrightarrow> ?thesis"
    by (auto simp: handle_def timestamp_after_def seek_event_def numeric_time_pos_def)
next
  case Malformed
  then show "handle fl items ids ev s l = Running s' \<Longrightarrow> ?thesis"
    by (auto simp: handle_def timestamp_after_def seek_event_def numeric_time_pos_def)
next
  case (Message m)
  assume h: "handle fl items ids ev s l = Running s'"
  show ?thesis
  proof (cases "msg_data m")
    case (DataNumber x)
    with h Message show ?thesis
      by (auto simp: handle_def timestamp_after_def seek_event_def numeric_time_pos_def
            on_time_pos_timestamp on_start_file_timestamp on_stop_def emit_def
          split: if_splits)
  next
    case DataNil
    with h Message show ?thesis
      by (auto simp: handle_def timestamp_after_def seek_event_def numeric_time_pos_def
            on_time_pos_def on_start_file_timestamp on_stop_def emit_def
          split: if_splits)
  next
    case DataOther
    with h Message show ?thesis
      by (auto simp: handle_def timestamp_after_def seek_event_def numeric_time_pos_def
            on_time_pos_def on_start_file_timestamp on_stop_def emit_def
          split: if_splits)
  qed
qed

lemma event_loop_timestamp:
  "event_loop fl items ids stream s = Running s'
     \<Longrightarrow> lastProgressUpdate s' = debounce_timestamp (lastProgressUpdate s) stream"
proof (induction stream arbitrary: s)
  case Nil
  then show ?case by simp
next
  case (Cons a stream)
  obtain l ev where a: "a = (l, ev)" by (cases a)
  from Cons.prems obtain s1 where
    h: "handle fl items ids ev s l = Running s1"
    and r: "event_loop fl items ids stream s1 = Running s'"
    by (auto simp: a split: outcome.splits)
  from handle_timestamp[OF h] Cons.IH[OF r] show ?case
    by (simp add: a)
qed

lemma debounce_timestamp_append:
  "debounce_timestamp t (pre @ post) = debounce_timestamp (debounce_timestamp t pre) post"
  by (induction pre arbitrary: t) auto

text \<open>
  C5, as amended. On a numeric \<^verbatim>\<open>time-pos\<close> event a progress report is made if and
  only if more than 3 seconds have passed since the debounce timestamp. The timestamp is
  the reading of the clock at the start of the loop; it moves (to the time after the
  report) only when a progress report succeeds, so that after a failed report the next
  \<^verbatim>\<open>time-pos\<close> event tries again; a \<^verbatim>\<open>seek\<close> event sets it to the zero time, since
  which more than 3 seconds have passed whatever the clock; and every other line
  (\<^verbatim>\<open>start-file\<close>, \<^verbatim>\<open>end-file\<close>, \<^verbatim>\<open>shutdown\<close>, other events and property changes,
  empty and malformed lines) leaves it as it is. So after any run of the loop the
  timestamp is the time of the last successful progress report, the zero time when a
  \<^verbatim>\<open>seek\<close> event came after it, and the start of the loop when there was neither.
\<close>

theorem progress_debounce:
  assumes "msg_event m = ''property-change''" and "msg_name m = ''time-pos''"
    and "msg_data m = DataNumber x"
  shows "(\<exists>s'. handle fl items ids ev s (Message m) = Running s'
      \<and> effects s' =
          effects s
          @ (if isInsideSkippableSegment fl (skippableSegments s) x \<noteq> of_integer fl 0
             then [Send (seekTo (isInsideSkippableSegment fl (skippableSegments s) x))] else [])
          @ (if since (clock ev) (lastProgressUpdate s) > 3 * second
             then [ReportPlaybackProgress (current s) (secondsToTicks fl x)] else [])
      \<and> lastProgressUpdate s' =
          (if since (clock ev) (lastProgressUpdate s) > 3 * second \<and> progress_ok ev
           then Clock (clock_after ev) else lastProgressUpdate s)
      \<and> handle fl items ids ev' s' (Message (event_message ''seek''))
          = Running (s'\<lparr>lastProgressUpdate := ZeroTime\<rparr>)
      \<and> since now ZeroTime > 3 * second)
    \<and> lastProgressUpdate (initial_session fl now0 it cs) = Clock now0
    \<and> (handle fl items ids e1 s1 l1 = Running s2 \<longrightarrow>
          lastProgressUpdate s2 = timestamp_after (lastProgressUpdate s1) l1 e1
          \<and> (\<not> seek_event l1 \<and> \<not> numeric_time_pos l1 \<longrightarrow>
                lastProgressUpdate s2 = lastProgressUpdate s1))
    \<and> (event_loop fl items ids pre (initial_session fl now0 it cs) = Running r \<longrightarrow>
          lastProgressUpdate r = debounce_timestamp (Clock now0) pre
          \<and> (\<exists>r'. handle fl items ids ev r (Message m) = Running r'
                \<and> (ReportPlaybackProgress (current r) (secondsToTicks fl x)
                      \<in> set (drop (length (effects r)) (effects r'))
                    \<longleftrightarrow> since (clock ev) (debounce_timestamp (Clock now0) pre) > 3 * second)
                \<and> lastProgressUpdate r' =
                    debounce_timestamp (Clock now0) (pre @ [(Message m, ev)])))
    \<and> debounce_timestamp t0 ([] :: ('f line \<times> env) list) = t0
    \<and> debounce_timestamp t0 (hist @ [(l2, e2)]) =
         (if seek_event l2 then ZeroTime
          else if numeric_time_pos l2
                  \<and> since (clock e2) (debounce_timestamp t0 hist) > 3 * second
                  \<and> progress_ok e2
               then Clock (clock_after e2)
          else debounce_timestamp t0 hist)"
proof -
  have step: "\<And>s. handle fl items ids ev s (Message m) = Running (on_time_pos fl ev s (DataNumber x))"
    using assms by (simp add: handle_def)
  have A: "\<exists>s'. handle fl items ids ev s (Message m) = Running s'
      \<and> effects s' =
          effects s
          @ (if isInsideSkippableSegment fl (skippableSegments s) x \<noteq> of_integer fl 0
             then [Send (seekTo (isInsideSkippableSegment fl (skippableSegments s) x))] else [])
          @ (if since (clock ev) (lastProgressUpdate s) > 3 * second
             then [ReportPlaybackProgress (current s) (secondsToTicks fl x)] else [])
      \<and> lastProgressUpdate s' =
          (if since (clock ev) (lastProgressUpdate s) > 3 * second \<and> progress_ok ev
           then Clock (clock_after ev) else lastProgressUpdate s)
      \<and> handle fl items ids ev' s' (Message (event_message ''seek''))
          = Running (s'\<lparr>lastProgressUpdate := ZeroTime\<rparr>)
      \<and> since now ZeroTime > 3 * second"
    using assms
    by (simp add: handle_def on_time_pos_effects on_time_pos_timestamp event_message_def
        since_zero_time)
  have B: "lastProgressUpdate (initial_session fl now0 it cs) = Clock now0"
    by (simp add: initial_session_def)
  have C: "handle fl items ids e1 s1 l1 = Running s2 \<longrightarrow>
          lastProgressUpdate s2 = timestamp_after (lastProgressUpdate s1) l1 e1
          \<and> (\<not> seek_event l1 \<and> \<not> numeric_time_pos l1 \<longrightarrow>
                lastProgressUpdate s2 = lastProgressUpdate s1)"
    using handle_timestamp [of fl items ids e1 s1 l1 s2]
    by (auto simp: timestamp_after_def)
  have nm: "numeric_time_pos (Message m)" "\<not> seek_event (Message m)"
    using assms by (simp_all add: numeric_time_pos_def seek_event_def)
  have D: "event_loop fl items ids pre (initial_session fl now0 it cs) = Running r \<longrightarrow>
          lastProgressUpdate r = debounce_timestamp (Clock now0) pre
          \<and> (\<exists>r'. handle fl items ids ev r (Message m) = Running r'
                \<and> (ReportPlaybackProgress (current r) (secondsToTicks fl x)
                      \<in> set (drop (length (effects r)) (effects r'))
                    \<longleftrightarrow> since (clock ev) (debounce_timestamp (Clock now0) pre) > 3 * second)
                \<and> lastProgressUpdate r' =
                    debounce_timestamp (Clock now0) (pre @ [(Message m, ev)]))"
  proof
    assume run: "event_loop fl items ids pre (initial_session fl now0 it cs) = Running r"
    have t: "lastProgressUpdate r = debounce_timestamp (Clock now0) pre"
      using event_loop_timestamp[OF run] B by simp
    have e: "ReportPlaybackProgress (current r) (secondsToTicks fl x)
               \<in> set (drop (length (effects r)) (effects (on_time_pos fl ev r (DataNumber x))))
             \<longleftrightarrow> since (clock ev) (debounce_timestamp (Clock now0) pre) > 3 * second"
      by (auto simp: on_time_pos_effects t)
    have u: "lastProgressUpdate (on_time_pos fl ev r (DataNumber x)) =
               debounce_timestamp (Clock now0) (pre @ [(Message m, ev)])"
      using nm by (simp add: debounce_timestamp_append timestamp_after_def
          on_time_pos_timestamp t)
    from t e u step [of r] show "lastProgressUpdate r = debounce_timestamp (Clock now0) pre
          \<and> (\<exists>r'. handle fl items ids ev r (Message m) = Running r'
                \<and> (ReportPlaybackProgress (current r) (secondsToTicks fl x)
                      \<in> set (drop (length (effects r)) (effects r'))
                    \<longleftrightarrow> since (clock ev) (debounce_timestamp (Clock now0) pre) > 3 * second)
                \<and> lastProgressUpdate r' =
                    debounce_timestamp (Clock now0) (pre @ [(Message m, ev)]))"
      by simp
  qed
  have E: "debounce_timestamp t0 ([] :: ('f line \<times> env) list) = t0" by simp
  have F: "debounce_timestamp t0 (hist @ [(l2, e2)]) =
         (if seek_event l2 then ZeroTime
          else if numeric_time_pos l2
                  \<and> since (clock e2) (debounce_timestamp t0 hist) > 3 * second
                  \<and> progress_ok e2
               then Clock (clock_after e2)
          else debounce_timestamp t0 hist)"
    by (simp add: debounce_timestamp_append timestamp_after_def)
  from A B C D E F show ?thesis by blast
qed


text \<open>
  Item B has a resume position of 300 s. After a \<^verbatim>\<open>time-pos\<close> event of 16 s for item
  A, the start of B is reported at 16 s, that is 160000000 ticks.
\<close>

theorem start_report_at_last_position_witness:
  "\<exists>s s'. event_loop exact64 [episode ''A'', (episode ''B'')\<lparr>resumePosition := 3000000000\<rparr>] [0, 1]
             [(Message (time_pos 16), at_clock 0 [])]
             (initial_session exact64 0 (episode ''A'') []) = Running s
     \<and> handle exact64 [episode ''A'', (episode ''B'')\<lparr>resumePosition := 3000000000\<rparr>] [0, 1]
           (at_clock 0 []) s (Message (start_file 2)) = Running s'
     \<and> resumePosition (current s') = 3000000000
     \<and> pos s' = 16
     \<and> (\<exists>rest. effects s' = effects s @ ReportPlaybackStart (current s') 160000000 # rest)"
proof -
  let ?items = "[episode ''A'', (episode ''B'')\<lparr>resumePosition := 3000000000\<rparr>]"
  let ?s = "(initial_session exact64 0 (episode ''A'') [])\<lparr>pos := 16\<rparr>"
  let ?s' = "?s\<lparr>current := (episode ''B'')\<lparr>resumePosition := 3000000000\<rparr>,
               effects := [ReportPlaybackStart ((episode ''B'')\<lparr>resumePosition := 3000000000\<rparr>)
                             160000000,
                           GetMediaSegments ((episode ''B'')\<lparr>resumePosition := 3000000000\<rparr>)]\<rparr>"
  have e: "event_loop exact64 ?items [0, 1] [(Message (time_pos 16), at_clock 0 [])]
             (initial_session exact64 0 (episode ''A'') []) = Running ?s"
    by (simp add: handle_def time_pos_def event_message_def on_time_pos_def Let_def
        initial_session_def at_clock_def since_def second_def maxDuration_def minDuration_def
        exact64_def)
  have m: "msg_event (start_file 2 :: rat message) = ''start-file''"
    by (simp add: start_file_def event_message_def)
  have h: "handle exact64 ?items [0, 1] (at_clock 0 []) ?s (Message (start_file 2)) = Running ?s'"
    by (simp add: handle_def start_file_def event_message_def on_start_file_def wrap64_def
        element_def initial_session_def at_clock_def emit_def Let_def secondsToTicks_def
        exact64_def episode_def)
  have l: "last_position (of_integer exact64 0) (map fst [(Message (time_pos 16), at_clock 0 [])])
             = (16 :: rat)"
    by (simp add: time_pos_def event_message_def)
  have t: "secondsToTicks exact64 16 = 160000000"
    by (simp add: secondsToTicks_def exact64_def)
  from start_report_at_last_position [OF e m h]
  have "pos ?s' = pos ?s \<and> pos ?s = (16 :: rat)
      \<and> (\<exists>rest. effects ?s' = effects ?s @ ReportPlaybackStart (current ?s') 160000000 # rest)"
    by (simp only: l t)
  then have "resumePosition (current ?s') = 3000000000 \<and> pos ?s' = 16
      \<and> (\<exists>rest. effects ?s' = effects ?s @ ReportPlaybackStart (current ?s') 160000000 # rest)"
    by (simp add: episode_def)
  with e h show ?thesis by blast
qed

text \<open>A \<^verbatim>\<open>time-pos\<close> event of 16 s, reported as 160000000 ticks.\<close>

theorem reports_carry_current_position_witness:
  "effects (session_of (handle exact64 [episode ''A''] [0] (at_clock 4000000000 [])
              (initial_session exact64 0 (episode ''A'') []) (Message (time_pos 16))))
     = [ReportPlaybackProgress (episode ''A'') 160000000]
   \<and> secondsToTicks exact64
         (pos (session_of (handle exact64 [episode ''A''] [0] (at_clock 4000000000 [])
                 (initial_session exact64 0 (episode ''A'') []) (Message (time_pos 16)))))
       = 160000000"
proof -
  let ?out = "handle exact64 [episode ''A''] [0] (at_clock 4000000000 [])
                (initial_session exact64 0 (episode ''A'') []) (Message (time_pos 16))"
  have c: "effects (session_of ?out) = [ReportPlaybackProgress (episode ''A'') 160000000]"
    by (simp add: handle_def time_pos_def event_message_def on_time_pos_def Let_def
        initial_session_def at_clock_def since_def second_def maxDuration_def minDuration_def
        exact64_def session_of_def emit_def secondsToTicks_def)
  obtain new where
    a: "effects (session_of ?out) = effects (initial_session exact64 0 (episode ''A'') []) @ new"
    and b: "\<forall>e \<in> set new. \<forall>t. transmitted e = Some t \<longrightarrow>
              t = secondsToTicks exact64 (pos (session_of ?out))"
    using reports_carry_current_position [of exact64 "[episode ''A'']" "[0]"
        "at_clock 4000000000 []" "initial_session exact64 0 (episode ''A'') []"
        "Message (time_pos 16)" "[]", THEN conjunct1]
    by blast
  from a c have n: "new = [ReportPlaybackProgress (episode ''A'') 160000000]"
    by (simp add: initial_session_def)
  from b n have "160000000 = secondsToTicks exact64 (pos (session_of ?out))"
    by (simp add: transmitted_def)
  with c show ?thesis by simp
qed

text \<open>
  A run with a report at 4 s and an ignored event after it: the timestamp is 4 s. A
  \<^verbatim>\<open>time-pos\<close> event 3 s and 1 ns later is reported and moves the timestamp.
\<close>

theorem progress_debounce_witness:
  "\<exists>r r'. event_loop exact64 [episode ''A''] [0]
             [(Message (time_pos 1), at_clock 4000000000 []),
              (Message (event_message ''pause''), at_clock 5000000000 [])]
             (initial_session exact64 0 (episode ''A'') []) = Running r
     \<and> lastProgressUpdate r = Clock 4000000000
     \<and> handle exact64 [episode ''A''] [0] (at_clock 7000000001 []) r (Message (time_pos 2))
         = Running r'
     \<and> ReportPlaybackProgress (episode ''A'') 20000000
         \<in> set (drop (length (effects r)) (effects r'))
     \<and> lastProgressUpdate r' = Clock 7000000001"
proof -
  let ?pre = "[(Message (time_pos 1), at_clock 4000000000 []),
               (Message (event_message ''pause''), at_clock 5000000000 [])]
              :: (rat line \<times> env) list"
  let ?r = "\<lparr>pos = 1 :: rat, lastProgressUpdate = Clock 4000000000, current = episode ''A'',
             skippableSegments = [],
             effects = [ReportPlaybackProgress (episode ''A'') 10000000]\<rparr>"
  have run: "event_loop exact64 [episode ''A''] [0] ?pre
               (initial_session exact64 0 (episode ''A'') []) = Running ?r"
    by (simp add: handle_def time_pos_def event_message_def on_time_pos_def Let_def
        initial_session_def at_clock_def since_def second_def maxDuration_def minDuration_def
        exact64_def emit_def secondsToTicks_def)
  have m: "msg_event (time_pos 2 :: rat message) = ''property-change''"
    "msg_name (time_pos 2 :: rat message) = ''time-pos''"
    "msg_data (time_pos 2 :: rat message) = DataNumber 2"
    by (simp_all add: time_pos_def event_message_def)
  have d: "debounce_timestamp (Clock 0) ?pre = Clock 4000000000"
    by (simp add: timestamp_after_def seek_event_def numeric_time_pos_def time_pos_def
        event_message_def at_clock_def since_def second_def maxDuration_def minDuration_def)
  have d': "debounce_timestamp (Clock 0) (?pre @ [(Message (time_pos 2), at_clock 7000000001 [])])
              = Clock 7000000001"
    by (simp add: timestamp_after_def seek_event_def numeric_time_pos_def time_pos_def
        event_message_def at_clock_def since_def second_def maxDuration_def minDuration_def)
  have t: "secondsToTicks exact64 2 = 20000000"
    by (simp add: secondsToTicks_def exact64_def)
  have c: "since (clock (at_clock 7000000001 [])) (Clock 4000000000) > 3 * second"
    by (simp add: at_clock_def since_def second_def maxDuration_def minDuration_def)
  note T = progress_debounce [OF m, where fl = exact64 and items = "[episode ''A'']"
      and ids = "[0]" and ev = "at_clock 7000000001 []" and pre = ?pre and ?now0.0 = 0
      and it = "episode ''A''" and cs = "[]" and r = ?r]
  note D = T [THEN conjunct2, THEN conjunct2, THEN conjunct2, THEN conjunct1, THEN mp, OF run]
  then obtain r' where
    h: "handle exact64 [episode ''A''] [0] (at_clock 7000000001 []) ?r (Message (time_pos 2))
          = Running r'"
    and i: "ReportPlaybackProgress (current ?r) (secondsToTicks exact64 2)
              \<in> set (drop (length (effects ?r)) (effects r'))
            \<longleftrightarrow> since (clock (at_clock 7000000001 [])) (debounce_timestamp (Clock 0) ?pre)
                  > 3 * second"
    and u: "lastProgressUpdate r' =
              debounce_timestamp (Clock 0)
                (?pre @ [(Message (time_pos 2), at_clock 7000000001 [])])"
    by blast
  from i c have "ReportPlaybackProgress (episode ''A'') 20000000
                   \<in> set (drop (length (effects ?r)) (effects r'))"
    by (simp only: d t) simp
  moreover from u have "lastProgressUpdate r' = Clock 7000000001"
    by (simp only: d')
  ultimately show ?thesis using run h by (intro exI[of _ ?r] exI[of _ r']) simp
qed

text \<open>
  C5 as stated fails in both directions. After a successful report at 4 s, a
  \<^verbatim>\<open>time-pos\<close> event exactly 3 s later is not reported; and after a \<^verbatim>\<open>seek\<close> event,
  a \<^verbatim>\<open>time-pos\<close> event 1 s after the last successful report is reported.
\<close>

theorem debounce_boundary_and_seek:
  "event_loop exact64 [episode ''A''] [0]
     [(Message (time_pos 1), at_clock 4000000000 []),
      (Message (time_pos 2), at_clock 7000000000 [])]
     (initial_session exact64 0 (episode ''A'') []) =
   Running \<lparr>pos = 2, lastProgressUpdate = Clock 4000000000, current = episode ''A'',
            skippableSegments = [],
            effects = [ReportPlaybackProgress (episode ''A'') 10000000]\<rparr>
   \<and> event_loop exact64 [episode ''A''] [0]
     [(Message (time_pos 1), at_clock 4000000000 []),
      (Message (event_message ''seek''), at_clock 4500000000 []),
      (Message (time_pos 2), at_clock 5000000000 [])]
     (initial_session exact64 0 (episode ''A'') []) =
   Running \<lparr>pos = 2, lastProgressUpdate = Clock 5000000000, current = episode ''A'',
            skippableSegments = [],
            effects = [ReportPlaybackProgress (episode ''A'') 10000000,
                       ReportPlaybackProgress (episode ''A'') 20000000]\<rparr>"
  by (simp add: handle_def time_pos_def event_message_def on_time_pos_def Let_def
      initial_session_def at_clock_def since_def second_def maxDuration_def minDuration_def
      exact64_def emit_def secondsToTicks_def)

section \<open>Detecting an old player\<close>

lemma Split_not_empty: "Split s c \<noteq> []"
  by (induction s) (auto split: list.splits)

lemma Split_no_separator: "p \<in> set (Split s c) \<Longrightarrow> c \<notin> set p"
proof (induction s arbitrary: p)
  case Nil
  then show ?case by simp
next
  case (Cons a s)
  show ?case
  proof (cases "a = c")
    case True
    with Cons show ?thesis by auto
  next
    case False
    obtain q qs where q: "Split s c = q # qs"
      using Split_not_empty[of s c] by (cases "Split s c") auto
    with Cons.prems False have "p = a # q \<or> p \<in> set qs" by auto
    then show ?thesis
      using Cons.IH[of q] Cons.IH[of p] q False by auto
  qed
qed

lemma Split_subset: "p \<in> set (Split s c) \<Longrightarrow> set p \<subseteq> set s"
proof (induction s arbitrary: p)
  case Nil
  then show ?case by simp
next
  case (Cons a s)
  show ?case
  proof (cases "a = c")
    case True
    with Cons show ?thesis by auto
  next
    case False
    obtain q qs where q: "Split s c = q # qs"
      using Split_not_empty[of s c] by (cases "Split s c") auto
    with Cons.prems False have "p = a # q \<or> p \<in> set qs" by auto
    then show ?thesis
      using Cons.IH[of q] Cons.IH[of p] q by auto
  qed
qed

lemma digits_nonneg:
  "list_all is_digit ds \<Longrightarrow> 0 \<le> n \<Longrightarrow> 0 \<le> foldl (\<lambda>n c. n * 10 + (int (of_char c) - 48)) n ds"
  by (induction ds arbitrary: n) (auto simp: is_digit_def)

lemma digits_value_nonneg: "list_all is_digit ds \<Longrightarrow> 0 \<le> digits_value ds"
  unfolding digits_value_def by (rule digits_nonneg) simp_all

lemma Atoi_nonneg: "Atoi p = Some v \<Longrightarrow> CHR ''-'' \<notin> set p \<Longrightarrow> 0 \<le> v"
  by (cases p) (auto simp: Atoi_def Let_def digits_value_nonneg split: if_splits)

lemma compare_three_parts:
  assumes "CHR ''-'' \<notin> set p0" and "CHR ''-'' \<notin> set p2"
  shows "compare_parts [p0, p1, p2] [0, 38, 0]
           \<longleftrightarrow> Atoi p0 = Some 0 \<and> (\<exists>v. Atoi p1 = Some v \<and> v < 38)"
proof -
  have a: "\<And>v. Atoi p0 = Some v \<Longrightarrow> 0 \<le> v" using assms(1) by (rule Atoi_nonneg[rotated])
  have b: "\<And>v. Atoi p2 = Some v \<Longrightarrow> 0 \<le> v" using assms(2) by (rule Atoi_nonneg[rotated])
  show ?thesis
    using a b by (auto split: option.splits)
qed

lemma parts_no_minus:
  assumes "p \<in> set (Split (hd (Split s (CHR ''-''))) c)"
  shows "CHR ''-'' \<notin> set p"
proof -
  have "hd (Split s (CHR ''-'')) \<in> set (Split s (CHR ''-''))"
    using Split_not_empty by (simp add: hd_in_set)
  then have "CHR ''-'' \<notin> set (hd (Split s (CHR ''-'')))"
    by (rule Split_no_separator)
  with Split_subset[OF assms] show ?thesis by auto
qed

lemma isOldMpv_Some:
  "isOldMpv (Some output) \<longleftrightarrow>
     (\<exists>idx p0 p1 p2 v.
        IndexByte output (CHR 0x0A) = Some idx
        \<and> 2 \<le> length (Fields (take idx output))
        \<and> Split (hd (Split (TrimPrefix (Fields (take idx output) ! 1) ''v'') (CHR ''-'')))
                 (CHR ''.'') = [p0, p1, p2]
        \<and> Atoi p0 = Some 0 \<and> Atoi p1 = Some v \<and> v < 38)"
proof (cases "IndexByte output (CHR 0x0A)")
  case None
  then show ?thesis by (simp add: isOldMpv_def)
next
  case (Some idx)
  let ?parts = "Split (hd (Split (TrimPrefix (Fields (take idx output) ! 1) ''v'') (CHR ''-'')))
                  (CHR ''.'')"
  show ?thesis
  proof (cases "2 \<le> length (Fields (take idx output)) \<and> length ?parts = 3")
    case False
    then show ?thesis
      using Some by (auto simp: isOldMpv_def Let_def)
  next
    case True
    then obtain p0 p1 p2 where p: "?parts = [p0, p1, p2]"
      by (auto simp: length_Suc_conv numeral_3_eq_3)
    have "p0 \<in> set ?parts" "p2 \<in> set ?parts" by (subst p, simp)+
    then have m: "CHR ''-'' \<notin> set p0" "CHR ''-'' \<notin> set p2"
      by (auto dest: parts_no_minus)
    have "isOldMpv (Some output) = compare_parts [p0, p1, p2] [0, 38, 0]"
      using Some True p by (simp add: isOldMpv_def Let_def)
    then show ?thesis
      using Some True p compare_three_parts[OF m, of p1] by auto
  qed
qed


lemma examples_split:
  "Split (hd (Split (TrimPrefix ''0.37.0'' ''v'') (CHR ''-''))) (CHR ''.'') = [''0'', ''37'', ''0'']"
  "Split (hd (Split (TrimPrefix ''0.38.0'' ''v'') (CHR ''-''))) (CHR ''.'') = [''0'', ''38'', ''0'']"
  "Split (hd (Split (TrimPrefix ''0.39.2-dirty'' ''v'') (CHR ''-''))) (CHR ''.'') = [''0'', ''39'', ''2'']"
  "Split (hd (Split (TrimPrefix ''0.37.x'' ''v'') (CHR ''-''))) (CHR ''.'') = [''0'', ''37'', ''x'']"
  by (simp_all add: TrimPrefix_def)

lemma examples_atoi:
  "Atoi ''0'' = Some 0" "Atoi ''37'' = Some 37" "Atoi ''38'' = Some 38" "Atoi ''39'' = Some 39"
  "Atoi ''x'' = None"
  by (simp_all add: Atoi_def is_digit_def digits_value_def)

text \<open>
  C4, as amended. \<^verbatim>\<open>isOldMpv\<close> takes the first line of the banner, its second field
  between white space, strips a leading \<open>v\<close> and everything from the first \<open>-\<close>, and
  splits at the dots into exactly three parts. It compares the parts with (0, 38, 0)
  from the left and converts a part to an integer only when the comparison reaches it:
  the player is old exactly when the first part is the integer 0 and the second an
  integer below 38, whatever the third. So the version \<open>0.37.0\<close> is old, and
  \<open>0.38.0\<close> and \<open>0.39.2-dirty\<close> are not; and no newline, fewer than two fields, other
  than three parts, or a part that is reached and is no integer, give ``not old''.
\<close>

theorem old_player_detection:
  "(isOldMpv result \<longleftrightarrow>
      (\<exists>output idx p0 p1 p2 v.
         result = Some output
         \<and> IndexByte output (CHR 0x0A) = Some idx
         \<and> 2 \<le> length (Fields (take idx output))
         \<and> Split (hd (Split (TrimPrefix (Fields (take idx output) ! 1) ''v'') (CHR ''-'')))
                  (CHR ''.'') = [p0, p1, p2]
         \<and> Atoi p0 = Some 0 \<and> Atoi p1 = Some v \<and> v < 38))
   \<and> (\<forall>output idx.
         IndexByte output (CHR 0x0A) = Some idx \<and> 2 \<le> length (Fields (take idx output)) \<longrightarrow>
           (Fields (take idx output) ! 1 = ''0.37.0'' \<longrightarrow> isOldMpv (Some output))
         \<and> (Fields (take idx output) ! 1 = ''0.38.0'' \<longrightarrow> \<not> isOldMpv (Some output))
         \<and> (Fields (take idx output) ! 1 = ''0.39.2-dirty'' \<longrightarrow> \<not> isOldMpv (Some output)))"
proof (intro conjI allI impI)
  show "isOldMpv result \<longleftrightarrow>
      (\<exists>output idx p0 p1 p2 v.
         result = Some output
         \<and> IndexByte output (CHR 0x0A) = Some idx
         \<and> 2 \<le> length (Fields (take idx output))
         \<and> Split (hd (Split (TrimPrefix (Fields (take idx output) ! 1) ''v'') (CHR ''-'')))
                  (CHR ''.'') = [p0, p1, p2]
         \<and> Atoi p0 = Some 0 \<and> Atoi p1 = Some v \<and> v < 38)"
  proof (cases result)
    case None
    then show ?thesis by (simp add: isOldMpv_def)
  next
    case (Some banner)
    then show ?thesis by (simp add: isOldMpv_Some)
  qed
next
  fix banner idx
  assume a: "IndexByte banner (CHR 0x0A) = Some idx \<and> 2 \<le> length (Fields (take idx banner))"
  {
    assume "Fields (take idx banner) ! 1 = ''0.37.0''"
    with a show "isOldMpv (Some banner)"
      by (simp add: isOldMpv_Some examples_split examples_atoi)
  }
  {
    assume "Fields (take idx banner) ! 1 = ''0.38.0''"
    with a show "\<not> isOldMpv (Some banner)"
      by (simp add: isOldMpv_Some examples_split examples_atoi)
  }
  {
    assume "Fields (take idx banner) ! 1 = ''0.39.2-dirty''"
    with a show "\<not> isOldMpv (Some banner)"
      by (simp add: isOldMpv_Some examples_split examples_atoi)
  }
qed

text \<open>
  C4 as stated fails: the version \<open>0.37.x\<close> does not split into three integers, and
  the player is taken to be old all the same.
\<close>

theorem unparsed_third_part_counterexample:
  "isOldMpv (Some (''mpv 0.37.x Copyright'' @ [CHR 0x0A])) \<and> Atoi ''x'' = None"
  by (simp add: isOldMpv_def Fields_def Fields_from.simps space_width_def Let_def
      examples_split examples_atoi)

text \<open>Banners with the three versions, one without a newline, one with a single field.\<close>

theorem old_player_detection_witness:
  "isOldMpv (Some (''mpv 0.37.0 Copyright'' @ [CHR 0x0A] @ '' built''))
   \<and> \<not> isOldMpv (Some (''mpv 0.38.0 Copyright'' @ [CHR 0x0A]))
   \<and> \<not> isOldMpv (Some (''mpv 0.39.2-dirty Copyright'' @ [CHR 0x0A]))
   \<and> \<not> isOldMpv (Some ''mpv 0.37.0 Copyright'')
   \<and> \<not> isOldMpv (Some (''mpv'' @ [CHR 0x0A]))"
proof -
  note ex = old_player_detection [THEN conjunct2, rule_format]
  have f: "Fields ''mpv 0.37.0 Copyright'' = [''mpv'', ''0.37.0'', ''Copyright'']"
    "Fields ''mpv 0.38.0 Copyright'' = [''mpv'', ''0.38.0'', ''Copyright'']"
    "Fields ''mpv 0.39.2-dirty Copyright'' = [''mpv'', ''0.39.2-dirty'', ''Copyright'']"
    by (simp_all add: Fields_def Fields_from.simps space_width_def)
  have 1: "isOldMpv (Some (''mpv 0.37.0 Copyright'' @ [CHR 0x0A] @ '' built''))"
    using ex [of "''mpv 0.37.0 Copyright'' @ [CHR 0x0A] @ '' built''" 20] f
    by simp
  have 2: "\<not> isOldMpv (Some (''mpv 0.38.0 Copyright'' @ [CHR 0x0A]))"
    using ex [of "''mpv 0.38.0 Copyright'' @ [CHR 0x0A]" 20] f
    by simp
  have 3: "\<not> isOldMpv (Some (''mpv 0.39.2-dirty Copyright'' @ [CHR 0x0A]))"
    using ex [of "''mpv 0.39.2-dirty Copyright'' @ [CHR 0x0A]" 26] f
    by simp
  have 4: "\<not> isOldMpv (Some ''mpv 0.37.0 Copyright'')"
    using old_player_detection [of "Some ''mpv 0.37.0 Copyright''", THEN conjunct1]
    by simp
  have 5: "\<not> isOldMpv (Some (''mpv'' @ [CHR 0x0A]))"
    using old_player_detection [of "Some (''mpv'' @ [CHR 0x0A])", THEN conjunct1]
    by (simp add: Fields_def Fields_from.simps space_width_def)
  from 1 2 3 4 5 show ?thesis by blast
qed

section \<open>Requests\<close>

lemma vocabulary_marshalable:
  "list_all (marshalable fl) (observeProperty name)"
  "list_all (marshalable fl) (seekTo p) \<longleftrightarrow> is_finite fl p"
  "list_all (marshalable fl) (appendFile oldMpv url title)"
  "list_all (marshalable fl) (playFile fl oldMpv url title start)"
  "list_all (marshalable fl) (addSubtitle url title lang)"
  "prependFile oldMpv url title = Some c \<Longrightarrow> list_all (marshalable fl) c"
  by (auto simp: marshalable_def observeProperty_def seekTo_def appendFile_def playFile_def
      addSubtitle_def prependFile_def split: if_splits)

text \<open>
  C9, as amended. Every request that is written is a JSON object with the field
  \<^verbatim>\<open>command\<close>, holding the command as an array; it has the integer field
  \<^verbatim>\<open>request_id\<close> exactly when the number drawn is not 0. Every command of the
  vocabulary can be written, a \<^verbatim>\<open>seek\<close> when its position is finite.
\<close>

theorem request_fields:
  "(list_all (marshalable fl) command \<longrightarrow>
      (\<exists>j. send fl n True command = Written j
         \<and> field ''command'' j = Some (JArray (map arg_json command))
         \<and> field ''request_id'' j = (if n = 0 then None else Some (JInt n))))
   \<and> list_all (marshalable fl) (observeProperty name)
   \<and> (list_all (marshalable fl) (seekTo p) \<longleftrightarrow> is_finite fl p)
   \<and> list_all (marshalable fl) (appendFile oldMpv url title)
   \<and> list_all (marshalable fl) (playFile fl oldMpv url title start)
   \<and> list_all (marshalable fl) (addSubtitle url title lang)
   \<and> (\<forall>c. prependFile oldMpv url title = Some c \<longrightarrow> list_all (marshalable fl) c)"
  by (simp add: vocabulary_marshalable send_def Marshal_def field_def)

text \<open>A \<^verbatim>\<open>seek\<close> to 20 s with the number 7.\<close>

theorem request_fields_witness:
  "send exact64 7 True (seekTo 20) =
     Written (JObject [(''command'', JArray [JString ''seek'', JFloat 20, JString ''absolute'']),
                       (''request_id'', JInt 7)])"
proof -
  have m: "list_all (marshalable exact64) (seekTo (20 :: rat))"
    by (simp add: marshalable_def seekTo_def exact64_def)
  from request_fields [of exact64 "seekTo 20" 7, THEN conjunct1, rule_format, OF m]
  obtain j where w: "send exact64 7 True (seekTo 20) = Written j"
    by blast
  then have "j = JObject [(''command'', JArray [JString ''seek'', JFloat 20, JString ''absolute'']),
                       (''request_id'', JInt 7)]"
    by (simp add: send_def Marshal_def seekTo_def arg_json_def split: if_splits)
  with w show ?thesis by simp
qed

text \<open>
  C9 as stated fails: when \<^verbatim>\<open>rand.Intn(1000)\<close> gives 0 the request has no field
  \<^verbatim>\<open>request_id\<close>.
\<close>

theorem request_id_zero_is_omitted:
  "send exact64 0 True (observeProperty ''time-pos'') =
     Written (JObject [(''command'',
                        JArray [JString ''observe_property'', JInt 1, JString ''time-pos''])])
   \<and> field ''request_id''
         (JObject [(''command'',
                    JArray [JString ''observe_property'', JInt 1, JString ''time-pos''])]
          :: rat json) = None"
  by (simp add: send_def Marshal_def observeProperty_def arg_json_def marshalable_def field_def)

end
